theory Spec2Isabelle
  imports Main "HOL-Library.Word"
begin

section \<open>Message model\<close>

text \<open>
  Modelled from the spec: the package \<open>message\<close> is not among the sources. The fields are
  the ones the spec lists for a frame; the advice is the structured reconnect hint
  (retry policy, timeout, interval). The payload type \<open>'d\<close> is opaque; a nil payload is
  \<open>None\<close>. \<open>Ext\<close> holds the marker fields that extensions tag a frame with.
\<close>

record Advise =
  Reconnect :: string
  Timeout :: int
  Interval :: int

record 'd Message =
  Channel :: string
  Version :: string
  SupportedConnectionTypes :: "string list"
  ConnectionType :: string
  Successful :: bool
  Id' :: string
  ClientId :: string
  Advice :: "Advise option"
  Data :: "'d option"
  Error :: string
  Subscription :: string
  Ext :: "string list"

text \<open>The zero value of the struct, which a Go composite literal starts from.\<close>

definition Message_zero :: "'d Message" where
  "Message_zero = \<lparr>Channel = [], Version = [], SupportedConnectionTypes = [],
     ConnectionType = [], Successful = False, Id' = [], ClientId = [], Advice = None,
     Data = None, Error = [], Subscription = [], Ext = []\<rparr>"

text \<open>
  Modelled from the spec: the method \<open>GetError\<close> of the absent package \<open>message\<close>. The
  error of a frame is an optional descriptive string; the method returns nil exactly when
  the string is empty.
\<close>

definition GetError :: "'d Message \<Rightarrow> string option" where
  "GetError m = (if Error m = [] then None else Some (Error m))"

section \<open>Package transport\<close>

text \<open>
  Modelled from the spec: the five reserved control paths, and \<open>IsMetaMessage\<close>, which
  holds iff the channel of the frame is one of them. The version of package
  \<open>transport\<close> that the transport engine is written against is not among the sources.
\<close>

definition MetaSubscribe :: string where "MetaSubscribe = ''/meta/subscribe''"
definition MetaUnsubscribe :: string where "MetaUnsubscribe = ''/meta/unsubscribe''"
definition MetaConnect :: string where "MetaConnect = ''/meta/connect''"
definition MetaDisconnect :: string where "MetaDisconnect = ''/meta/disconnect''"
definition MetaHandshake :: string where "MetaHandshake = ''/meta/handshake''"

definition IsMetaMessage :: "'d Message \<Rightarrow> bool" where
  "IsMetaMessage msg \<longleftrightarrow> Channel msg \<in> set [MetaHandshake, MetaConnect, MetaDisconnect,
     MetaSubscribe, MetaUnsubscribe]"

text \<open>
  The two remaining classifiers, \<open>IsEventDelivery\<close> and \<open>IsEventPublish\<close>, are functions
  of the frame alone whose bodies are absent; they are parameters of the read loop.
\<close>

record 'd transport =
  IsEventDelivery :: "'d Message \<Rightarrow> bool"
  IsEventPublish :: "'d Message \<Rightarrow> bool"

text \<open>
  Modelled from the spec: the options as the engine uses them, the URL and the two ordered
  lists of transforms configured once at connection setup (the declaration of the type
  that the engine is written against is not among the sources).
  An extension is a closure over one mutable frame. It may change the frame and whatever
  it has captured; \<open>'u\<close> is the state all caller-supplied closures (extensions,
  publish-response callbacks, message handlers) act on.
\<close>

type_synonym ('d, 'u) Extension = "'d Message \<Rightarrow> 'u \<Rightarrow> 'd Message \<times> 'u"

record ('d, 'u) Options =
  Url :: string
  InExt :: "('d, 'u) Extension list"
  OutExt :: "('d, 'u) Extension list"

section \<open>The socket\<close>

text \<open>
  The connection of the websocket library is the environment. \<open>incoming\<close> is what the
  successive calls of \<open>ReadJSON\<close> will produce (a read on an exhausted stream never
  returns), \<open>written\<close> the batches \<open>WriteJSON\<close> has put on the wire, and \<open>broken\<close> the error
  every write fails with, if any.
\<close>

datatype 'd read_result = ReadErr string | Payload "'d Message list"

record 'd Conn =
  incoming :: "'d read_result list"
  written :: "'d Message list list"
  broken :: "string option"

definition ReadJSON :: "'d Conn \<Rightarrow> ('d read_result \<times> 'd Conn) option" where
  "ReadJSON c = (case incoming c of [] \<Rightarrow> None | r # rs \<Rightarrow> Some (r, c\<lparr>incoming := rs\<rparr>))"

definition WriteJSON :: "'d Conn \<Rightarrow> 'd Message list \<Rightarrow> string option \<times> 'd Conn" where
  "WriteJSON c payload = (case broken c of Some e \<Rightarrow> (Some e, c)
     | None \<Rightarrow> (None, c\<lparr>written := written c @ [payload]\<rparr>))"

section \<open>strconv.Itoa\<close>

definition digit_char :: "nat \<Rightarrow> char" where
  "digit_char d = ''0123456789'' ! d"

fun utoa :: "nat \<Rightarrow> string" where
  "utoa n = (if n < 10 then [digit_char n] else utoa (n div 10) @ [digit_char (n mod 10)])"

declare utoa.simps [simp del]

definition Itoa :: "int \<Rightarrow> string" where
  "Itoa i = (if i < 0 then CHR ''-'' # utoa (nat (- i)) else utoa (nat i))"

text \<open>The number a decimal string denotes, to compare ids numerically.\<close>

definition digit_val :: "char \<Rightarrow> nat" where
  "digit_val c = of_char c - 48"

definition atou :: "string \<Rightarrow> nat" where
  "atou s = foldl (\<lambda>a c. 10 * a + digit_val c) 0 s"

definition Atoi :: "string \<Rightarrow> int" where
  "Atoi s = (case s of [] \<Rightarrow> 0
     | c # r \<Rightarrow> if c = CHR ''-'' then - int (atou r) else int (atou s))"

section \<open>The transport engine\<close>

text \<open>
  A Go channel of frames. The hand-off of a frame to the consumer is recorded in \<open>queue\<close>,
  in order; a send on a closed channel and a second close panic. The channels of the
  engine are unbuffered: a send waits for the consumer to take the frame. The model
  takes the consumer to be ready, so a send on an open channel goes through; the stall
  of the read loop on a consumer that has gone is outside it.
\<close>

record 'd Mailbox =
  queue :: "'d Message list"
  closed :: bool

text \<open>
  The run-time panics of the engine: the four of the Go run time that its statements can
  raise, and its own, with the message.
\<close>

datatype panic =
    IndexOutOfRange
  | NilDereference
  | SendOnClosedChannel
  | CloseOfClosedChannel
  | AssignmentToNilMap
  | Bug string

text \<open>What a call does: it returns, it panics, or it never returns.\<close>

datatype 'a outcome = Return 'a | Panic panic | Blocks

text \<open>
  The struct \<open>Websocket\<close>. Pointer fields that \<open>Init\<close> always sets are modelled by what
  they point to. \<open>conn\<close> is nil after a failed dial, and the map \<open>onPublishResponse\<close> is
  nil until something makes it. Channels are references: \<open>chans\<close> is the store they point
  into and \<open>next_chan\<close> the next free reference. \<open>workers\<close> counts the live \<open>readWorker\<close>
  goroutines (each waits in its read), \<open>stopCh_closed\<close> is the state of \<open>stopCh\<close>, and \<open>world\<close> is the state of the
  caller-supplied closures.
\<close>

record ('d, 'u) Websocket =
  TransportOpts :: "('d, 'u) Options"
  conn :: "'d Conn option"
  clientID :: string
  msgID :: "64 word"
  advice :: "Advise option"
  stopCh_closed :: bool
  workers :: nat
  subs :: "string \<rightharpoonup> nat"
  onPublishResponse :: "(string \<rightharpoonup> ('d Message \<Rightarrow> 'u \<Rightarrow> 'u)) option"
  chans :: "nat \<Rightarrow> 'd Mailbox"
  next_chan :: nat
  world :: 'u

definition transportName :: string where "transportName = ''websocket''"

subsection \<open>Extension pipeline\<close>

fun applyExtensions ::
  "('d, 'u) Extension list \<Rightarrow> 'd Message \<Rightarrow> 'u \<Rightarrow> 'd Message \<times> 'u" where
  "applyExtensions [] m u = (m, u)"
| "applyExtensions (e # es) m u = (case e m u of (m', u') \<Rightarrow> applyExtensions es m' u')"

definition applyOutExtensions ::
  "'d Message \<Rightarrow> ('d, 'u) Websocket \<Rightarrow> 'd Message \<times> ('d, 'u) Websocket" where
  "applyOutExtensions m w =
     (case applyExtensions (OutExt (TransportOpts w)) m (world w) of
        (m', u') \<Rightarrow> (m', w\<lparr>world := u'\<rparr>))"

definition applyInExtensions ::
  "'d Message \<Rightarrow> ('d, 'u) Websocket \<Rightarrow> 'd Message \<times> ('d, 'u) Websocket" where
  "applyInExtensions m w =
     (case applyExtensions (InExt (TransportOpts w)) m (world w) of
        (m', u') \<Rightarrow> (m', w\<lparr>world := u'\<rparr>))"

subsection \<open>Sending\<close>

definition sendMessage ::
  "'d Message \<Rightarrow> ('d, 'u) Websocket \<Rightarrow> (string option \<times> ('d, 'u) Websocket) outcome" where
  "sendMessage m w =
     (case applyOutExtensions m w of (m', w1) \<Rightarrow>
        (case conn w1 of
           None \<Rightarrow> Panic NilDereference
         | Some c \<Rightarrow> (case WriteJSON c [m'] of (err, c') \<Rightarrow> Return (err, w1\<lparr>conn := Some c'\<rparr>))))"

text \<open>
  The counter is a \<open>uint64\<close>; \<open>atomic.AddUint64\<close> wraps around. The conversion to \<open>int\<close>
  reads the 64 bits as two's complement (\<open>int\<close> is 64 bits wide on the usual platforms).
\<close>

definition nextMsgID :: "('d, 'u) Websocket \<Rightarrow> string \<times> ('d, 'u) Websocket" where
  "nextMsgID w = (Itoa (sint (msgID w + 1)), w\<lparr>msgID := msgID w + 1\<rparr>)"

definition Unsubscribe ::
  "string \<Rightarrow> ('d, 'u) Websocket \<Rightarrow> (string option \<times> ('d, 'u) Websocket) outcome" where
  "Unsubscribe subscription w =
     (case nextMsgID w of (mid, w1) \<Rightarrow>
        sendMessage (Message_zero\<lparr>Channel := MetaUnsubscribe, Subscription := subscription,
          ClientId := clientID w, Id' := mid\<rparr>) w1)"

definition Publish ::
  "string \<Rightarrow> 'd option \<Rightarrow> ('d, 'u) Websocket \<Rightarrow>
     ((string \<times> string option) \<times> ('d, 'u) Websocket) outcome" where
  "Publish subscription data w =
     (case nextMsgID w of (mid, w1) \<Rightarrow>
        (case sendMessage (Message_zero\<lparr>Channel := subscription, Data := data,
                ClientId := clientID w, Id' := mid\<rparr>) w1 of
           Panic p \<Rightarrow> Panic p
         | Blocks \<Rightarrow> Blocks
         | Return (Some err, w2) \<Rightarrow> Return (([], Some err), w2)
         | Return (None, w2) \<Rightarrow> Return ((mid, None), w2)))"

subsection \<open>Lifecycle\<close>

text \<open>
  \<open>dial\<close> is the dialer of the websocket library: the error or the connection it gives
  for a URL. The zero value of the struct is what package initialisation registers.
\<close>

definition Websocket_zero :: "'u \<Rightarrow> ('d, 'u) Websocket" where
  "Websocket_zero u = \<lparr>TransportOpts = \<lparr>Url = [], InExt = [], OutExt = []\<rparr>, conn = None,
     clientID = [], msgID = 0, advice = None, stopCh_closed = False, workers = 0,
     subs = Map.empty, onPublishResponse = None,
     chans = (\<lambda>_. \<lparr>queue = [], closed = False\<rparr>), next_chan = 0, world = u\<rparr>"

definition Init ::
  "('d, 'u) Options \<Rightarrow> (string \<Rightarrow> string + 'd Conn) \<Rightarrow> ('d, 'u) Websocket \<Rightarrow>
     string option \<times> ('d, 'u) Websocket" where
  "Init options dial w =
     (let w1 = w\<lparr>TransportOpts := options, msgID := 0, subs := Map.empty,
                 stopCh_closed := False\<rparr>
      in case dial (Url options) of
           Inl err \<Rightarrow> (Some err, w1\<lparr>conn := None\<rparr>)
         | Inr c \<Rightarrow> (None, w1\<lparr>conn := Some c\<rparr>))"

text \<open>
  In \<open>Handshake\<close> the variable \<open>err\<close> holds the result of the read when the response is
  inspected, and the read has succeeded there: \<open>return err\<close> returns nil.
\<close>

definition Handshake ::
  "('d, 'u) Websocket \<Rightarrow> (string option \<times> ('d, 'u) Websocket) outcome" where
  "Handshake w =
     (case sendMessage (Message_zero\<lparr>Channel := MetaHandshake, Version := ''1.0'',
             SupportedConnectionTypes := [transportName]\<rparr>) w of
        Panic p \<Rightarrow> Panic p
      | Blocks \<Rightarrow> Blocks
      | Return (Some err, w1) \<Rightarrow> Return (Some err, w1)
      | Return (None, w1) \<Rightarrow>
          (case conn w1 of
             None \<Rightarrow> Panic NilDereference
           | Some c \<Rightarrow>
               (case ReadJSON c of
                  None \<Rightarrow> Blocks
                | Some (ReadErr err, c') \<Rightarrow> Return (Some err, w1\<lparr>conn := Some c'\<rparr>)
                | Some (Payload hsResps, c') \<Rightarrow>
                    (let err = None in
                     case hsResps of
                       [] \<Rightarrow> Panic IndexOutOfRange
                     | resp0 # _ \<Rightarrow>
                         (case applyInExtensions resp0 (w1\<lparr>conn := Some c'\<rparr>) of
                            (resp, w2) \<Rightarrow>
                              if GetError resp \<noteq> None then Return (err, w2)
                              else Return (None, w2\<lparr>clientID := ClientId resp\<rparr>))))))"

definition Connect ::
  "('d, 'u) Websocket \<Rightarrow> (string option \<times> ('d, 'u) Websocket) outcome" where
  "Connect w =
     (case nextMsgID w of (mid, w1) \<Rightarrow>
        sendMessage (Message_zero\<lparr>Channel := MetaConnect, ClientId := clientID w,
          ConnectionType := transportName, Id' := mid\<rparr>) (w1\<lparr>workers := Suc (workers w1)\<rparr>))"

subsection \<open>Subscriptions\<close>

definition chan_send ::
  "nat \<Rightarrow> 'd Message \<Rightarrow> ('d, 'u) Websocket \<Rightarrow> ('d, 'u) Websocket outcome" where
  "chan_send c m w =
     (if closed (chans w c) then Panic SendOnClosedChannel
      else Return (w\<lparr>chans := (chans w)(c := (chans w c)\<lparr>queue := queue (chans w c) @ [m]\<rparr>)\<rparr>))"

definition chan_close :: "nat \<Rightarrow> ('d, 'u) Websocket \<Rightarrow> ('d, 'u) Websocket outcome" where
  "chan_close c w =
     (if closed (chans w c) then Panic CloseOfClosedChannel
      else Return (w\<lparr>chans := (chans w)(c := (chans w c)\<lparr>closed := True\<rparr>)\<rparr>))"

text \<open>
  \<open>Subscribe\<close> runs beside the read loop, so it is given in its two parts: the part up to
  the registration of the fresh mailbox, which returns the error of the send or the
  reference \<open>inMsgCh\<close>, and the range loop over what the mailbox hands over (the frames
  in order, and whether the mailbox has been closed after them).
\<close>

definition Subscribe_register ::
  "string \<Rightarrow> ('d, 'u) Websocket \<Rightarrow> ((string + nat) \<times> ('d, 'u) Websocket) outcome" where
  "Subscribe_register subscription w =
     (case nextMsgID w of (mid, w1) \<Rightarrow>
        (case sendMessage (Message_zero\<lparr>Channel := MetaSubscribe, ClientId := clientID w,
                Subscription := subscription, Id' := mid\<rparr>) w1 of
           Panic p \<Rightarrow> Panic p
         | Blocks \<Rightarrow> Blocks
         | Return (Some err, w2) \<Rightarrow> Return (Inl err, w2)
         | Return (None, w2) \<Rightarrow>
             (let inMsgCh = next_chan w2
              in Return (Inr inMsgCh,
                   w2\<lparr>chans := (chans w2)(inMsgCh := \<lparr>queue = [], closed = False\<rparr>),
                      next_chan := Suc inMsgCh,
                      subs := (subs w2)(subscription \<mapsto> inMsgCh)\<rparr>))))"

fun Subscribe_range ::
  "('d option \<Rightarrow> 'u \<Rightarrow> 'u) \<Rightarrow> 'd Message list \<Rightarrow> bool \<Rightarrow> 'u \<Rightarrow> (string option \<times> 'u) outcome" where
  "Subscribe_range onMessage [] cl u = (if cl then Return (None, u) else Blocks)"
| "Subscribe_range onMessage (inMsg # rest) cl u =
     (case GetError inMsg of
        Some err \<Rightarrow> Return (Some err, u)
      | None \<Rightarrow> Subscribe_range onMessage rest cl (onMessage (Data inMsg) u))"

definition OnPublishResponse ::
  "string \<Rightarrow> ('d Message \<Rightarrow> 'u \<Rightarrow> 'u) \<Rightarrow> ('d, 'u) Websocket \<Rightarrow> ('d, 'u) Websocket outcome" where
  "OnPublishResponse subscription onMsg w =
     (case onPublishResponse w of
        None \<Rightarrow> Panic AssignmentToNilMap
      | Some r \<Rightarrow> Return (w\<lparr>onPublishResponse := Some (r(subscription \<mapsto> onMsg))\<rparr>))"

subsection \<open>Read loop\<close>

definition handleAdvise :: "Advise \<Rightarrow> ('d, 'u) Websocket \<Rightarrow> ('d, 'u) Websocket" where
  "handleAdvise m w = w\<lparr>advice := Some m\<rparr>"

definition not_registered :: "string \<Rightarrow> string" where
  "not_registered s = ''BUG: subscription not registered `'' @ s @ ''`''"

definition subscription_failed :: "string \<Rightarrow> string" where
  "subscription_failed s = ''susbscription `'' @ s @ ''` failed''"

text \<open>
  The body of one iteration after the read is the dispatch of the received batch. Its three
  blocks come first: the response to a failed subscribe, the delivery of an event, and
  the response to a publish.
\<close>

definition subscribe_failed ::
  "'d Message \<Rightarrow> ('d, 'u) Websocket \<Rightarrow> ('d, 'u) Websocket outcome" where
  "subscribe_failed msg w =
     (case subs w (Subscription msg) of
        None \<Rightarrow> Panic (Bug (not_registered (Subscription msg)))
      | Some subscription \<Rightarrow>
          (let msg1 = (if GetError msg \<noteq> None
                       then msg\<lparr>Error := subscription_failed (Subscription msg)\<rparr>
                       else msg)
           in case chan_send subscription msg1 w of
                Panic p \<Rightarrow> Panic p
              | Blocks \<Rightarrow> Blocks
              | Return w2 \<Rightarrow>
                  (case chan_close subscription w2 of
                     Panic p \<Rightarrow> Panic p
                   | Blocks \<Rightarrow> Blocks
                   | Return w3 \<Rightarrow> Return (w3\<lparr>subs := (subs w3)(Channel msg1 := None)\<rparr>))))"

definition event_delivery ::
  "'d Message \<Rightarrow> ('d, 'u) Websocket \<Rightarrow> ('d, 'u) Websocket outcome" where
  "event_delivery msg w =
     (let subscription = subs w (Channel msg)
      in case applyInExtensions msg w of
           (msg', w2) \<Rightarrow>
             (case subscription of
                None \<Rightarrow> Return w2
              | Some ch \<Rightarrow> chan_send ch msg' w2))"

definition event_publish ::
  "'d Message \<Rightarrow> ('d, 'u) Websocket \<Rightarrow> ('d, 'u) Websocket outcome" where
  "event_publish msg w =
     (case onPublishResponse w of
        None \<Rightarrow> Return w
      | Some r \<Rightarrow>
          (case r (Channel msg) of
             None \<Rightarrow> Return w
           | Some onPublish \<Rightarrow> Return (w\<lparr>world := onPublish msg (world w)\<rparr>)))"

definition dispatch ::
  "'d transport \<Rightarrow> 'd Message list \<Rightarrow> ('d, 'u) Websocket \<Rightarrow> ('d, 'u) Websocket outcome" where
  "dispatch T payload w =
     (case payload of
        [] \<Rightarrow> Panic IndexOutOfRange
      | msg # _ \<Rightarrow>
          (let w1 = (case Advice msg of None \<Rightarrow> w | Some a \<Rightarrow> handleAdvise a w)
           in if IsMetaMessage msg then
                (if Channel msg = MetaSubscribe \<and> \<not> Successful msg
                 then subscribe_failed msg w1
                 else Return w1)
              else if IsEventDelivery T msg then event_delivery msg w1
              else if IsEventPublish T msg then event_publish msg w1
              else Return w1))"

text \<open>
  One iteration: the stop check, the read, the dispatch. It ends the loop with the error
  the worker returns (\<open>Some\<close>), or goes on (\<open>None\<close>).
\<close>

definition readWorker_iter ::
  "'d transport \<Rightarrow> ('d, 'u) Websocket \<Rightarrow>
     (string option option \<times> ('d, 'u) Websocket) outcome" where
  "readWorker_iter T w =
     (if stopCh_closed w then Return (Some None, w\<lparr>workers := workers w - 1\<rparr>)
      else case conn w of
             None \<Rightarrow> Panic NilDereference
           | Some c \<Rightarrow>
               (case ReadJSON c of
                  None \<Rightarrow> Blocks
                | Some (ReadErr err, c') \<Rightarrow>
                    Return (Some (Some err), w\<lparr>conn := Some c', workers := workers w - 1\<rparr>)
                | Some (Payload payload, c') \<Rightarrow>
                    (case dispatch T payload (w\<lparr>conn := Some c'\<rparr>) of
                       Panic p \<Rightarrow> Panic p
                     | Blocks \<Rightarrow> Blocks
                     | Return w' \<Rightarrow> Return (None, w'))))"

definition pending :: "('d, 'u) Websocket \<Rightarrow> nat" where
  "pending w = (case conn w of None \<Rightarrow> 0 | Some c \<Rightarrow> length (incoming c))"

function readWorker ::
  "'d transport \<Rightarrow> ('d, 'u) Websocket \<Rightarrow> (string option \<times> ('d, 'u) Websocket) outcome" where
  "readWorker T w =
     (case readWorker_iter T w of
        Panic p \<Rightarrow> Panic p
      | Blocks \<Rightarrow> Blocks
      | Return (Some err, w') \<Rightarrow> Return (err, w')
      | Return (None, w') \<Rightarrow> readWorker T w')"
  by pat_completeness auto
termination
proof (relation "measure (\<lambda>(T, w). pending w)")
  show "wf (measure (\<lambda>(T :: 'd transport, w :: ('d, 'u) Websocket). pending w))"
    by simp
next
  fix T :: "'d transport" and w :: "('d, 'u) Websocket" and x1 a w'
  assume it: "readWorker_iter T w = Return x1" "(a, w') = x1" "a = None"
  have sf: "conn v' = conn v" if "subscribe_failed m v = Return v'"
    for m and v v' :: "('d, 'u) Websocket"
    using that
    by (auto simp: subscribe_failed_def chan_send_def chan_close_def Let_def
        split: option.splits if_splits)
  have ed: "conn v' = conn v" if "event_delivery m v = Return v'"
    for m and v v' :: "('d, 'u) Websocket"
    using that
    by (auto simp: event_delivery_def chan_send_def applyInExtensions_def Let_def
        split: option.splits if_splits prod.splits)
  have ep: "conn v' = conn v" if "event_publish m v = Return v'"
    for m and v v' :: "('d, 'u) Websocket"
    using that
    by (auto simp: event_publish_def split: option.splits)
  have disp: "conn v' = conn v" if "dispatch T p v = Return v'"
    for p and v v' :: "('d, 'u) Websocket"
    using that
    by (auto simp: dispatch_def handleAdvise_def Let_def
        split: list.splits option.splits if_splits dest!: sf ed ep)
  from it have "pending w' < pending w"
    by (auto simp: readWorker_iter_def ReadJSON_def pending_def
        split: if_splits option.splits list.splits read_result.splits outcome.splits
        dest!: disp)
  then show "((T, w'), (T, w)) \<in> measure (\<lambda>(T, w). pending w)"
    by simp
qed

subsection \<open>Disconnect\<close>

text \<open>
  \<open>Disconnect\<close> builds its frame and then sends the stop signal on \<open>stopCh\<close>, a channel
  without a buffer: the send returns when a worker receives at the stop check at the head
  of its loop. A live worker has passed that check and waits in its read (\<open>workers\<close>
  counts those), so it takes the signal when it comes round again, after it has read and
  dispatched one more batch. A worker whose read fails returns without taking it.
  \<open>await_stop\<close> is that wait; it ends with the state in which the worker has taken the
  signal and returned. With no live worker, or with nothing more to read, nobody takes
  the signal and \<open>Disconnect\<close> never returns; on a closed \<open>stopCh\<close> the send panics.
\<close>

function await_stop ::
  "'d transport \<Rightarrow> ('d, 'u) Websocket \<Rightarrow> ('d, 'u) Websocket outcome" where
  "await_stop T w =
     (if workers w = 0 then Blocks
      else case conn w of
             None \<Rightarrow> Panic NilDereference
           | Some c \<Rightarrow>
               (case ReadJSON c of
                  None \<Rightarrow> Blocks
                | Some (ReadErr err, c') \<Rightarrow>
                    await_stop T (w\<lparr>conn := Some c', workers := workers w - 1\<rparr>)
                | Some (Payload payload, c') \<Rightarrow>
                    (case dispatch T payload (w\<lparr>conn := Some c'\<rparr>) of
                       Panic p \<Rightarrow> Panic p
                     | Blocks \<Rightarrow> Blocks
                     | Return w' \<Rightarrow> Return (w'\<lparr>workers := workers w' - 1\<rparr>))))"
  by pat_completeness auto
termination
  by (relation "measure (\<lambda>(T, w). pending w)")
    (auto simp: ReadJSON_def pending_def split: list.splits)

declare await_stop.simps [simp del]

definition Disconnect ::
  "'d transport \<Rightarrow> ('d, 'u) Websocket \<Rightarrow> (string option \<times> ('d, 'u) Websocket) outcome" where
  "Disconnect T w =
     (case nextMsgID w of (mid, w1) \<Rightarrow>
        if stopCh_closed w1 then Panic SendOnClosedChannel
        else case await_stop T w1 of
               Panic p \<Rightarrow> Panic p
             | Blocks \<Rightarrow> Blocks
             | Return w2 \<Rightarrow>
                 sendMessage (Message_zero\<lparr>Channel := MetaDisconnect, ClientId := clientID w,
                   Id' := mid\<rparr>) (w2\<lparr>stopCh_closed := True\<rparr>))"

section \<open>Observations\<close>

text \<open>The batches the connection has put on the wire so far.\<close>

definition wire :: "('d, 'u) Websocket \<Rightarrow> 'd Message list list" where
  "wire w = (case conn w of None \<Rightarrow> [] | Some c \<Rightarrow> written c)"

text \<open>What the socket still holds for the reader.\<close>

definition unread :: "('d, 'u) Websocket \<Rightarrow> 'd read_result list" where
  "unread w = (case conn w of None \<Rightarrow> [] | Some c \<Rightarrow> incoming c)"

text \<open>The frames the operations build, before the outbound pipeline.\<close>

definition handshake_frame :: "'d Message" where
  "handshake_frame = Message_zero\<lparr>Channel := MetaHandshake, Version := ''1.0'',
     SupportedConnectionTypes := [transportName]\<rparr>"

definition control_frame :: "string \<Rightarrow> ('d, 'u) Websocket \<Rightarrow> 'd Message" where
  "control_frame ch w = Message_zero\<lparr>Channel := ch, ClientId := clientID w,
     Id' := Itoa (sint (msgID w + 1))\<rparr>"

text \<open>One pass of the outbound pipeline of \<open>w\<close> over a frame.\<close>

definition out_pass :: "('d, 'u) Websocket \<Rightarrow> 'd Message \<Rightarrow> 'd Message \<times> 'u" where
  "out_pass w m = applyExtensions (OutExt (TransportOpts w)) m (world w)"

definition in_pass :: "('d, 'u) Websocket \<Rightarrow> 'd Message \<Rightarrow> 'd Message \<times> 'u" where
  "in_pass w m = applyExtensions (InExt (TransportOpts w)) m (world w)"

text \<open>
  \<open>w'\<close> comes from \<open>w\<close> by one send of the frame \<open>m\<close> on the connection \<open>c\<close>: the outbound
  pipeline has run once over \<open>m\<close> and over the state of the closures, and its result is
  the one frame of the one batch added to the wire, unless the write failed.
\<close>

definition sent_once ::
  "('d, 'u) Websocket \<Rightarrow> 'd Conn \<Rightarrow> 'd Message \<Rightarrow> ('d, 'u) Websocket \<Rightarrow> bool" where
  "sent_once w c m w' \<longleftrightarrow>
     wire w' = written c @ (if broken c = None then [[fst (out_pass w m)]] else []) \<and>
     world w' = snd (out_pass w m)"

text \<open>The wire after a call that returned.\<close>

definition wire_after :: "('a \<times> ('d, 'u) Websocket) outcome \<Rightarrow> 'd Message list list" where
  "wire_after r = (case r of Return (_, w') \<Rightarrow> wire w' | _ \<Rightarrow> [])"

text \<open>The state after the advice of a frame, if it has one, is stored.\<close>

definition advised :: "'d Message \<Rightarrow> ('d, 'u) Websocket \<Rightarrow> ('d, 'u) Websocket" where
  "advised msg w = (case Advice msg of None \<Rightarrow> w | Some a \<Rightarrow> handleAdvise a w)"

text \<open>The state an iteration of the read loop leaves, when it returns.\<close>

definition after_iter ::
  "(string option option \<times> ('d, 'u) Websocket) outcome \<Rightarrow> ('d, 'u) Websocket option" where
  "after_iter r = (case r of Return (_, w') \<Rightarrow> Some w' | _ \<Rightarrow> None)"

text \<open>The connection is there and its writes succeed.\<close>

definition live :: "('d, 'u) Websocket \<Rightarrow> bool" where
  "live w = (case conn w of None \<Rightarrow> False | Some c \<Rightarrow> broken c = None)"

text \<open>
  A caller that makes calls on one connection, one after the other, and the results of
  its \<open>Publish\<close> calls in order. The caller stops where a call panics or never returns.
  \<open>T\<close> is the classification the read workers dispatch with.
\<close>

datatype 'd call =
    CallHandshake
  | CallConnect
  | CallDisconnect
  | CallSubscribe string
  | CallUnsubscribe string
  | CallPublish string "'d option"

fun publish_results ::
  "'d transport \<Rightarrow> 'd call list \<Rightarrow> ('d, 'u) Websocket \<Rightarrow> (string \<times> string option) list" where
  "publish_results T [] w = []"
| "publish_results T (CallHandshake # cs) w =
     (case Handshake w of Return (_, w') \<Rightarrow> publish_results T cs w' | _ \<Rightarrow> [])"
| "publish_results T (CallConnect # cs) w =
     (case Connect w of Return (_, w') \<Rightarrow> publish_results T cs w' | _ \<Rightarrow> [])"
| "publish_results T (CallDisconnect # cs) w =
     (case Disconnect T w of Return (_, w') \<Rightarrow> publish_results T cs w' | _ \<Rightarrow> [])"
| "publish_results T (CallSubscribe s # cs) w =
     (case Subscribe_register s w of Return (_, w') \<Rightarrow> publish_results T cs w' | _ \<Rightarrow> [])"
| "publish_results T (CallUnsubscribe s # cs) w =
     (case Unsubscribe s w of Return (_, w') \<Rightarrow> publish_results T cs w' | _ \<Rightarrow> [])"
| "publish_results T (CallPublish s d # cs) w =
     (case Publish s d w of Return (r, w') \<Rightarrow> r # publish_results T cs w' | _ \<Rightarrow> [])"

text \<open>The ids of the calls that returned one.\<close>

definition returned_ids :: "(string \<times> string option) list \<Rightarrow> string list" where
  "returned_ids rs = map fst (filter (\<lambda>r. snd r = None) rs)"

section \<open>Example connections\<close>

text \<open>An extension that tags a frame with a marker, and one that counts its calls.\<close>

definition tag :: "string \<Rightarrow> ('d, 'u) Extension" where
  "tag mk m u = (m\<lparr>Ext := mk # Ext m\<rparr>, u)"

definition count_calls :: "('d, nat) Extension" where
  "count_calls m n = (m, Suc n)"

definition conn0 :: "string Conn" where
  "conn0 = \<lparr>incoming = [], written = [], broken = None\<rparr>"

definition opts0 :: "(string, nat) Options" where
  "opts0 = \<lparr>Url = ''ws://localhost:8000/faye'', InExt = [tag ''in'', count_calls],
     OutExt = [tag ''out'', count_calls]\<rparr>"

text \<open>The connection after a successful \<open>Init\<close> of the zero value.\<close>

definition fresh :: "(string, nat) Websocket" where
  "fresh = snd (Init opts0 (\<lambda>_. Inr conn0) (Websocket_zero 0))"

text \<open>A classification of the frames that are not control frames, by their payload.\<close>

definition by_payload :: "string transport" where
  "by_payload = \<lparr>IsEventDelivery = (\<lambda>m. Data m \<noteq> None),
     IsEventPublish = (\<lambda>m. Data m = None)\<rparr>"

text \<open>The socket holds the given read results for the reader.\<close>

definition receiving ::
  "string read_result list \<Rightarrow> (string, nat) Websocket \<Rightarrow> (string, nat) Websocket" where
  "receiving rs w = w\<lparr>conn := map_option (\<lambda>c. c\<lparr>incoming := rs\<rparr>) (conn w)\<rparr>"

text \<open>The nack of a subscribe to a forbidden channel, and a delivery on that channel.\<close>

definition nack :: "string Message" where
  "nack = Message_zero\<lparr>Channel := MetaSubscribe, Subscription := ''/unauthorized'',
     Error := ''403:/unauthorized:Forbidden channel''\<rparr>"

definition delivery :: "string Message" where
  "delivery = Message_zero\<lparr>Channel := ''/unauthorized'', Data := Some ''hello world''\<rparr>"

definition publish_ack :: "string Message" where
  "publish_ack = Message_zero\<lparr>Channel := ''/test'', Successful := True, Id' := ''1''\<rparr>"

definition handshake_ok :: "string Message" where
  "handshake_ok = Message_zero\<lparr>Channel := MetaHandshake, Successful := True,
     ClientId := ''c1''\<rparr>"

definition hello :: "string call" where
  "hello = CallPublish ''/test'' (Some ''hello world'')"

text \<open>
  The connection after the first part of \<open>Subscribe\<close> for the forbidden channel, and the
  nack as the read loop hands it on.
\<close>

definition subscribed :: "(string, nat) Websocket" where
  "subscribed = (case Subscribe_register ''/unauthorized'' fresh of
     Return (_, w) \<Rightarrow> w | _ \<Rightarrow> fresh)"

definition nack_injected :: "string Message" where
  "nack_injected = nack\<lparr>Error := ''susbscription `/unauthorized` failed''\<rparr>"

text \<open>Handshake responses: one without a client id, one that carries an error.\<close>

definition no_client_id :: "string Message" where
  "no_client_id = Message_zero\<lparr>Channel := MetaHandshake, Successful := True\<rparr>"

definition handshake_refused :: "string Message" where
  "handshake_refused = Message_zero\<lparr>Channel := MetaHandshake, ClientId := ''c2'',
     Error := ''401::Unauthorized''\<rparr>"

text \<open>
  A publish-response callback that tells a frame with the inbound marker from one without,
  and a connection on which it is registered.
\<close>

definition acked :: "string Message \<Rightarrow> nat \<Rightarrow> nat" where
  "acked m n = (if ''in'' \<in> set (Ext m) then n + 100 else n + 10)"

definition listening :: "(string, nat) Websocket" where
  "listening = fresh\<lparr>onPublishResponse := Some [''/test'' \<mapsto> acked]\<rparr>"

text \<open>
  The connection after \<open>Connect\<close>, with its worker waiting in the read, and the response
  of the server to the connect.
\<close>

definition connected :: "(string, nat) Websocket" where
  "connected = (case Connect fresh of Return (_, w) \<Rightarrow> w | _ \<Rightarrow> fresh)"

definition connect_ack :: "string Message" where
  "connect_ack = Message_zero\<lparr>Channel := MetaConnect, Successful := True, Id' := ''1''\<rparr>"

section \<open>The send primitive\<close>

lemma sendMessage_conn:
  assumes "conn w = Some c"
  shows "sendMessage m w = Return (broken c,
           w\<lparr>world := snd (out_pass w m),
             conn := Some (if broken c = None
                           then c\<lparr>written := written c @ [[fst (out_pass w m)]]\<rparr> else c)\<rparr>)"
  using assms
  by (auto simp: sendMessage_def applyOutExtensions_def out_pass_def WriteJSON_def
      split: prod.splits option.splits)

lemma sendMessage_nil: "conn w = None \<Longrightarrow> sendMessage m w = Panic NilDereference"
  by (simp add: sendMessage_def applyOutExtensions_def split: prod.splits)

lemma out_pass_indep [simp]:
  "out_pass (w\<lparr>msgID := x\<rparr>) m = out_pass w m"
  "out_pass (w\<lparr>workers := n\<rparr>) m = out_pass w m"
  "out_pass (w\<lparr>stopCh_closed := b\<rparr>) m = out_pass w m"
  by (simp_all add: out_pass_def)

lemma conn_fresh: "conn fresh = Some conn0"
  by (simp add: fresh_def Init_def)

lemma fresh_eq:
  "fresh = \<lparr>TransportOpts = opts0, conn = Some conn0, clientID = [], msgID = 0,
     advice = None, stopCh_closed = False, workers = 0, subs = Map.empty,
     onPublishResponse = None, chans = (\<lambda>_. \<lparr>queue = [], closed = False\<rparr>),
     next_chan = 0, world = 0\<rparr>"
  by (simp add: fresh_def Init_def Websocket_zero_def)

lemma fresh_fields:
  "TransportOpts fresh = opts0" "clientID fresh = []" "msgID fresh = 0"
  "advice fresh = None" "stopCh_closed fresh = False" "workers fresh = 0"
  "subs fresh = Map.empty" "onPublishResponse fresh = None" "next_chan fresh = 0"
  "world fresh = 0" "chans fresh = (\<lambda>_. \<lparr>queue = [], closed = False\<rparr>)"
  by (simp_all add: fresh_eq)

lemma receiving_fresh:
  "receiving rs fresh = fresh\<lparr>conn := Some (conn0\<lparr>incoming := rs\<rparr>)\<rparr>"
  by (simp add: receiving_def conn_fresh)

lemma receiving_fields:
  "TransportOpts (receiving rs w) = TransportOpts w" "clientID (receiving rs w) = clientID w"
  "msgID (receiving rs w) = msgID w" "advice (receiving rs w) = advice w"
  "stopCh_closed (receiving rs w) = stopCh_closed w" "workers (receiving rs w) = workers w"
  "subs (receiving rs w) = subs w" "onPublishResponse (receiving rs w) = onPublishResponse w"
  "next_chan (receiving rs w) = next_chan w" "world (receiving rs w) = world w"
  "chans (receiving rs w) = chans w"
  "conn (receiving rs w) = map_option (\<lambda>c. c\<lparr>incoming := rs\<rparr>) (conn w)"
  by (simp_all add: receiving_def)

lemma out_pass_opts0:
  "TransportOpts w = opts0 \<Longrightarrow> out_pass w m = (m\<lparr>Ext := ''out'' # Ext m\<rparr>, Suc (world w))"
  by (simp add: out_pass_def opts0_def tag_def count_calls_def)

lemma Ext_frames [simp]:
  "Ext (control_frame ch w) = []" "Ext handshake_frame = []"
  by (simp_all add: control_frame_def handshake_frame_def Message_zero_def)

lemma Handshake_payload:
  assumes "conn w = Some c" "broken c = None" "incoming c = Payload hsResps # later"
  shows "Handshake w =
    (case hsResps of [] \<Rightarrow> Panic IndexOutOfRange
     | resp0 # _ \<Rightarrow>
       (case applyInExtensions resp0
          (w\<lparr>world := snd (out_pass w handshake_frame),
             conn := Some (c\<lparr>written := written c @ [[fst (out_pass w handshake_frame)]],
                            incoming := later\<rparr>)\<rparr>) of
         (resp, w2) \<Rightarrow> if GetError resp \<noteq> None then Return (None, w2)
                       else Return (None, w2\<lparr>clientID := ClientId resp\<rparr>)))"
  using assms
  by (simp add: Handshake_def sendMessage_conn ReadJSON_def handshake_frame_def
      split: list.splits)

lemma Handshake_wire:
  assumes "conn w = Some c" and "Handshake w = Return (e, w')"
  shows "wire w' = written c @ (if broken c = None then [[fst (out_pass w handshake_frame)]] else [])"
proof (cases "broken c")
  case (Some err)
  with assms show ?thesis
    by (auto simp: Handshake_def sendMessage_conn wire_def)
next
  case None
  with assms show ?thesis
    by (auto simp: Handshake_def sendMessage_conn wire_def ReadJSON_def handshake_frame_def
        applyInExtensions_def
        split: list.splits read_result.splits prod.splits if_splits)
qed

lemma in_pass_opts0:
  "TransportOpts w = opts0 \<Longrightarrow> in_pass w m = (m\<lparr>Ext := ''in'' # Ext m\<rparr>, Suc (world w))"
  by (simp add: in_pass_def opts0_def tag_def count_calls_def)

lemma event_delivery_eq:
  "event_delivery msg w =
     (case subs w (Channel msg) of
        None \<Rightarrow> Return (w\<lparr>world := snd (in_pass w msg)\<rparr>)
      | Some ch \<Rightarrow>
          if closed (chans w ch) then Panic SendOnClosedChannel
          else Return (w\<lparr>world := snd (in_pass w msg),
                 chans := (chans w)(ch := (chans w ch)\<lparr>queue :=
                    queue (chans w ch) @ [fst (in_pass w msg)]\<rparr>)\<rparr>))"
  by (simp add: event_delivery_def applyInExtensions_def in_pass_def chan_send_def Let_def
      split: prod.split option.split)

lemma event_publish_eq:
  "event_publish msg w =
     Return (case onPublishResponse w of
        None \<Rightarrow> w
      | Some r \<Rightarrow> (case r (Channel msg) of
           None \<Rightarrow> w
         | Some onPublish \<Rightarrow> w\<lparr>world := onPublish msg (world w)\<rparr>))"
  by (simp add: event_publish_def split: option.split)

lemma Subscribe_register_live:
  assumes "conn w = Some c" "broken c = None"
  shows "Subscribe_register s w = Return (Inr (next_chan w),
     w\<lparr>msgID := msgID w + 1,
       world := snd (out_pass w ((control_frame MetaSubscribe w)\<lparr>Subscription := s\<rparr>)),
       conn := Some (c\<lparr>written := written c @
          [[fst (out_pass w ((control_frame MetaSubscribe w)\<lparr>Subscription := s\<rparr>))]]\<rparr>),
       chans := (chans w)(next_chan w := \<lparr>queue = [], closed = False\<rparr>),
       next_chan := Suc (next_chan w),
       subs := (subs w)(s \<mapsto> next_chan w)\<rparr>)"
proof -
  have "conn (w\<lparr>msgID := msgID w + 1\<rparr>) = Some c"
    using assms(1) by simp
  from sendMessage_conn [OF this] assms(2) show ?thesis
    by (simp add: Subscribe_register_def nextMsgID_def Let_def control_frame_def
        Message_zero_def)
qed

lemma subscribed_fields:
  "subs subscribed = [''/unauthorized'' \<mapsto> 0]"
  "chans subscribed = (\<lambda>_. \<lparr>queue = [], closed = False\<rparr>)"
  "stopCh_closed subscribed = False"
  "conn subscribed = Some (conn0\<lparr>written :=
     [[fst (out_pass fresh ((control_frame MetaSubscribe fresh)\<lparr>Subscription := ''/unauthorized''\<rparr>))]]\<rparr>)"
  "onPublishResponse subscribed = None" "advice subscribed = None"
  "world subscribed = 1" "TransportOpts subscribed = opts0"
proof -
  have b: "broken conn0 = None" by (simp add: conn0_def)
  note r = Subscribe_register_live [OF conn_fresh b, of "''/unauthorized''"]
  show "subs subscribed = [''/unauthorized'' \<mapsto> 0]"
    by (simp add: subscribed_def r fresh_fields)
  show "chans subscribed = (\<lambda>_. \<lparr>queue = [], closed = False\<rparr>)"
    by (simp add: subscribed_def r fresh_fields fun_eq_iff)
  show "stopCh_closed subscribed = False"
    by (simp add: subscribed_def r fresh_fields)
  show "conn subscribed = Some (conn0\<lparr>written :=
     [[fst (out_pass fresh ((control_frame MetaSubscribe fresh)\<lparr>Subscription := ''/unauthorized''\<rparr>))]]\<rparr>)"
    by (simp add: subscribed_def r conn0_def)
  show "onPublishResponse subscribed = None" "advice subscribed = None"
    "world subscribed = 1" "TransportOpts subscribed = opts0"
    by (simp_all add: subscribed_def r fresh_fields out_pass_opts0)
qed

section \<open>Unsubscribe\<close>

text \<open>
  C7. \<open>Unsubscribe\<close> on a live connection returns at once with the result of the write. It
  has built one control frame on the unsubscribe channel carrying the channel, the client
  id and the next message id, and sent it through the send primitive. It has read
  nothing from the socket (no wait for an acknowledgment), and the subscription registry
  and the mailboxes are as before: a registered mailbox of the channel is still registered.
\<close>

theorem Unsubscribe_only_sends:
  assumes "conn w = Some c"
  shows "\<exists>w'. Unsubscribe subscription w = Return (broken c, w')
     \<and> sent_once w c ((control_frame MetaUnsubscribe w)\<lparr>Subscription := subscription\<rparr>) w'
     \<and> unread w' = unread w
     \<and> subs w' = subs w \<and> chans w' = chans w \<and> next_chan w' = next_chan w
     \<and> onPublishResponse w' = onPublishResponse w \<and> advice w' = advice w
     \<and> clientID w' = clientID w \<and> msgID w' = msgID w + 1"
  using assms
  by (simp add: Unsubscribe_def nextMsgID_def sendMessage_conn sent_once_def wire_def
      unread_def control_frame_def Message_zero_def)

theorem Unsubscribe_only_sends_witness:
  "conn fresh = Some conn0 \<and>
   (\<exists>w'. Unsubscribe ''/test'' fresh = Return (None, w')
      \<and> wire w' = [[Message_zero\<lparr>Channel := ''/meta/unsubscribe'', Subscription := ''/test'',
            Id' := ''1'', Ext := [''out'']\<rparr>]]
      \<and> subs w' = subs fresh \<and> chans w' = chans fresh)"
proof -
  have f: "fst (out_pass fresh ((control_frame MetaUnsubscribe fresh)\<lparr>Subscription := ''/test''\<rparr>))
     = Message_zero\<lparr>Channel := ''/meta/unsubscribe'', Subscription := ''/test'',
            Id' := ''1'', Ext := [''out'']\<rparr>"
    by (simp add: out_pass_def fresh_def Init_def opts0_def tag_def count_calls_def
        control_frame_def Message_zero_def MetaUnsubscribe_def Websocket_zero_def
        Itoa_def utoa.simps digit_char_def)
  from Unsubscribe_only_sends [OF conn_fresh, of "''/test''"] conn_fresh f show ?thesis
    by (auto simp: sent_once_def conn0_def)
qed

section \<open>The read loop, one iteration\<close>

lemmas meta_defs = IsMetaMessage_def MetaHandshake_def MetaConnect_def MetaDisconnect_def
  MetaSubscribe_def MetaUnsubscribe_def

lemma subscribe_failed_unregistered:
  "subs w (Subscription msg) = None \<Longrightarrow>
   subscribe_failed msg w = Panic (Bug (not_registered (Subscription msg)))"
  by (simp add: subscribe_failed_def)

lemma subscribe_failed_registered:
  "subs w (Subscription msg) = Some ch \<Longrightarrow>
   subscribe_failed msg w =
     (if closed (chans w ch) then Panic SendOnClosedChannel
      else Return (w\<lparr>chans := (chans w)(ch :=
                        (chans w ch)\<lparr>queue := queue (chans w ch) @
                           [if GetError msg \<noteq> None
                            then msg\<lparr>Error := subscription_failed (Subscription msg)\<rparr>
                            else msg],
                         closed := True\<rparr>),
                     subs := (subs w)(Channel msg := None)\<rparr>))"
  by (simp add: subscribe_failed_def chan_send_def chan_close_def)

lemma blocks_not_ioor:
  "subscribe_failed m v \<noteq> Panic IndexOutOfRange"
  "event_delivery m v \<noteq> Panic IndexOutOfRange"
  "event_publish m v \<noteq> Panic IndexOutOfRange"
    apply (cases "subs v (Subscription m)")
     apply (simp add: subscribe_failed_unregistered)
    apply (simp add: subscribe_failed_registered)
   apply (simp add: event_delivery_def chan_send_def applyInExtensions_def
      split: prod.split option.split)
  apply (simp add: event_publish_def split: option.split)
  done

lemma dispatch_Cons_not_ioor: "dispatch T (m # ms) v \<noteq> Panic IndexOutOfRange"
  by (simp add: dispatch_def Let_def blocks_not_ioor)

lemma iter_payload:
  assumes "conn w = Some c" "\<not> stopCh_closed w" "incoming c = Payload payload # later"
  shows "readWorker_iter T w =
     (case dispatch T payload (w\<lparr>conn := Some (c\<lparr>incoming := later\<rparr>)\<rparr>) of
        Panic p \<Rightarrow> Panic p | Blocks \<Rightarrow> Blocks | Return w' \<Rightarrow> Return (None, w'))"
  using assms by (simp add: readWorker_iter_def ReadJSON_def)

text \<open>
  C9. When the read loop receives a frame on the subscribe control channel that signals
  failure and whose subscription has no mailbox in the registry, the iteration panics
  with the message of the bug, and so does the loop: the frame is not ignored.
\<close>

theorem nack_unregistered_panics:
  assumes "conn w = Some c" and "\<not> stopCh_closed w"
    and "incoming c = Payload (msg # rest) # later"
    and "Channel msg = MetaSubscribe" and "\<not> Successful msg"
    and "subs w (Subscription msg) = None"
  shows "readWorker_iter T w = Panic (Bug (not_registered (Subscription msg))) \<and>
         readWorker T w = Panic (Bug (not_registered (Subscription msg)))"
proof -
  have "dispatch T (msg # rest) (w\<lparr>conn := Some (c\<lparr>incoming := later\<rparr>)\<rparr>)
      = Panic (Bug (not_registered (Subscription msg)))"
    using assms(4-6)
    by (simp add: dispatch_def IsMetaMessage_def handleAdvise_def
        subscribe_failed_unregistered split: option.splits)
  then have "readWorker_iter T w = Panic (Bug (not_registered (Subscription msg)))"
    using assms(1-3) by (simp add: iter_payload)
  then show ?thesis by (subst readWorker.simps) simp
qed

theorem nack_unregistered_panics_witness:
  "readWorker by_payload (receiving [Payload [nack]] fresh)
     = Panic (Bug ''BUG: subscription not registered `/unauthorized`'')"
proof -
  have "readWorker by_payload (receiving [Payload [nack]] fresh)
     = Panic (Bug (not_registered (Subscription nack)))"
    using nack_unregistered_panics [where w = "receiving [Payload [nack]] fresh"
        and c = "conn0\<lparr>incoming := [Payload [nack]]\<rparr>" and msg = nack and rest = "[]"
        and later = "[]" and T = by_payload]
    by (simp add: receiving_def fresh_eq nack_def Message_zero_def)
  then show ?thesis by (simp add: not_registered_def nack_def Message_zero_def)
qed

text \<open>
  C10. The iteration of the read loop and the direct read of \<open>Handshake\<close> both take the first
  element of the received batch without a check. With a batch read from the socket, each
  of them panics with an index out of range exactly when the batch is empty.
\<close>

theorem first_element_unchecked:
  assumes "conn w = Some c" and "\<not> stopCh_closed w" and "broken c = None"
    and "incoming c = Payload payload # later"
  shows "(readWorker_iter T w = Panic IndexOutOfRange \<longleftrightarrow> payload = []) \<and>
         (Handshake w = Panic IndexOutOfRange \<longleftrightarrow> payload = [])"
proof -
  have r: "readWorker_iter T w = Panic IndexOutOfRange \<longleftrightarrow> payload = []"
  proof (cases payload)
    case Nil
    then show ?thesis using assms by (simp add: iter_payload dispatch_def)
  next
    case (Cons m ms)
    then show ?thesis
      using assms dispatch_Cons_not_ioor [of T m ms "w\<lparr>conn := Some (c\<lparr>incoming := later\<rparr>)\<rparr>"]
      by (auto simp: iter_payload split: outcome.splits)
  qed
  have h: "Handshake w = Panic IndexOutOfRange \<longleftrightarrow> payload = []"
    using assms by (auto simp: Handshake_payload split: list.splits prod.splits)
  from r h show ?thesis by simp
qed

theorem first_element_unchecked_witness:
  "readWorker_iter by_payload (receiving [Payload []] fresh) = Panic IndexOutOfRange \<and>
   Handshake (receiving [Payload []] fresh) = Panic IndexOutOfRange \<and>
   readWorker_iter by_payload (receiving [Payload [publish_ack]] fresh) \<noteq> Panic IndexOutOfRange \<and>
   Handshake (receiving [Payload [publish_ack]] fresh) \<noteq> Panic IndexOutOfRange"
  using first_element_unchecked [where w = "receiving [Payload []] fresh"
        and c = "conn0\<lparr>incoming := [Payload []]\<rparr>" and payload = "[]" and later = "[]"
        and T = by_payload]
    first_element_unchecked [where w = "receiving [Payload [publish_ack]] fresh"
        and c = "conn0\<lparr>incoming := [Payload [publish_ack]]\<rparr>"
        and payload = "[publish_ack]" and later = "[]" and T = by_payload]
  by (simp add: receiving_def fresh_eq conn0_def)

section \<open>Init\<close>

text \<open>
  C3. \<open>Init\<close> returns an error exactly when the dial fails, and leaves the counter of
  message ids at zero and the subscription registry empty. It does not make the map of
  publish-response callbacks: on the zero value of the struct the map stays nil, and a
  registration with \<open>OnPublishResponse\<close> on the fresh connection panics with an
  assignment to an entry of a nil map.
\<close>

theorem Init_leaves_publish_registry_nil:
  "(fst (Init options dial (Websocket_zero u)) \<noteq> None \<longleftrightarrow> isl (dial (Url options))) \<and>
   msgID (snd (Init options dial (Websocket_zero u))) = 0 \<and>
   subs (snd (Init options dial (Websocket_zero u))) = Map.empty \<and>
   onPublishResponse (snd (Init options dial (Websocket_zero u))) = None \<and>
   OnPublishResponse subscription onMsg (snd (Init options dial (Websocket_zero u)))
     = Panic AssignmentToNilMap \<and>
   OnPublishResponse ''/test'' onMsg' fresh = Panic AssignmentToNilMap"
  by (cases "dial (Url options)")
    (simp_all add: Init_def Websocket_zero_def OnPublishResponse_def fresh_fields)

section \<open>Handshake\<close>

text \<open>
  C2, as stated, fails: a response without an error and without a client id makes
  \<open>Handshake\<close> return nil, with the empty client id stored.
\<close>

theorem Handshake_accepts_empty_client_id_counterexample:
  "GetError no_client_id = None \<and> ClientId no_client_id = [] \<and>
   map_outcome (\<lambda>(err, w'). (err, clientID w'))
     (Handshake (receiving [Payload [no_client_id]] fresh)) = Return (None, [])"
proof -
  have c: "conn (receiving [Payload [no_client_id]] fresh)
      = Some (conn0\<lparr>incoming := [Payload [no_client_id]]\<rparr>)"
    by (simp add: receiving_fresh)
  show ?thesis
    using Handshake_payload [OF c, of "[no_client_id]" "[]"]
    by (simp add: conn0_def applyInExtensions_def receiving_fields opts0_def fresh_fields
        tag_def count_calls_def no_client_id_def Message_zero_def GetError_def)
qed

text \<open>
  C2, amended. On a connection that is there, \<open>Handshake\<close> returns the error of the write
  when the send fails and the error of the read when the read of the response fails, and
  leaves the client id as it was. When the first element of the response, after the
  inbound extensions, carries no error, \<open>Handshake\<close> returns nil and stores the client
  id of that element, empty or not. When it carries an error, \<open>Handshake\<close> leaves the
  client id as it was.
\<close>

theorem Handshake_stores_client_id:
  assumes "conn w = Some c"
  shows "(\<forall>e. broken c = Some e \<longrightarrow>
            (\<exists>w'. Handshake w = Return (Some e, w') \<and> clientID w' = clientID w)) \<and>
         (\<forall>e later. broken c = None \<and> incoming c = ReadErr e # later \<longrightarrow>
            (\<exists>w'. Handshake w = Return (Some e, w') \<and> clientID w' = clientID w)) \<and>
         (\<forall>resp0 rest later resp.
            broken c = None \<and> incoming c = Payload (resp0 # rest) # later \<and>
            resp = fst (in_pass (w\<lparr>world := snd (out_pass w handshake_frame)\<rparr>) resp0) \<longrightarrow>
            (GetError resp = None \<longrightarrow>
               (\<exists>w'. Handshake w = Return (None, w') \<and> clientID w' = ClientId resp)) \<and>
            (GetError resp \<noteq> None \<longrightarrow>
               (\<exists>e w'. Handshake w = Return (e, w') \<and> clientID w' = clientID w)))"
proof (intro conjI allI impI)
  fix e assume "broken c = Some e"
  with assms show "\<exists>w'. Handshake w = Return (Some e, w') \<and> clientID w' = clientID w"
    by (simp add: Handshake_def sendMessage_conn)
next
  fix e later assume "broken c = None \<and> incoming c = ReadErr e # later"
  with assms show "\<exists>w'. Handshake w = Return (Some e, w') \<and> clientID w' = clientID w"
    by (simp add: Handshake_def sendMessage_conn ReadJSON_def)
next
  fix resp0 rest later resp
  assume a: "broken c = None \<and> incoming c = Payload (resp0 # rest) # later \<and>
            resp = fst (in_pass (w\<lparr>world := snd (out_pass w handshake_frame)\<rparr>) resp0)"
    and g: "GetError resp = None"
  from a have h: "Handshake w =
       (case applyInExtensions resp0
          (w\<lparr>world := snd (out_pass w handshake_frame),
             conn := Some (c\<lparr>written := written c @ [[fst (out_pass w handshake_frame)]],
                            incoming := later\<rparr>)\<rparr>) of
         (resp, w2) \<Rightarrow> if GetError resp \<noteq> None then Return (None, w2)
                       else Return (None, w2\<lparr>clientID := ClientId resp\<rparr>))"
    using Handshake_payload [OF assms, of "resp0 # rest" later] by simp
  from a g show "\<exists>w'. Handshake w = Return (None, w') \<and> clientID w' = ClientId resp"
    by (simp add: h applyInExtensions_def in_pass_def split_def)
next
  fix resp0 rest later resp
  assume a: "broken c = None \<and> incoming c = Payload (resp0 # rest) # later \<and>
            resp = fst (in_pass (w\<lparr>world := snd (out_pass w handshake_frame)\<rparr>) resp0)"
    and g: "GetError resp \<noteq> None"
  from a have h: "Handshake w =
       (case applyInExtensions resp0
          (w\<lparr>world := snd (out_pass w handshake_frame),
             conn := Some (c\<lparr>written := written c @ [[fst (out_pass w handshake_frame)]],
                            incoming := later\<rparr>)\<rparr>) of
         (resp, w2) \<Rightarrow> if GetError resp \<noteq> None then Return (None, w2)
                       else Return (None, w2\<lparr>clientID := ClientId resp\<rparr>))"
    using Handshake_payload [OF assms, of "resp0 # rest" later] by simp
  from a g show "\<exists>e w'. Handshake w = Return (e, w') \<and> clientID w' = clientID w"
    by (simp add: h applyInExtensions_def in_pass_def split_def)
qed

theorem Handshake_stores_client_id_witness:
  "map_outcome (\<lambda>(err, w'). (err, clientID w'))
     (Handshake (fresh\<lparr>conn := Some (conn0\<lparr>broken := Some ''closed''\<rparr>)\<rparr>))
       = Return (Some ''closed'', []) \<and>
   map_outcome (\<lambda>(err, w'). (err, clientID w')) (Handshake (receiving [ReadErr ''EOF''] fresh))
       = Return (Some ''EOF'', []) \<and>
   map_outcome (\<lambda>(err, w'). (err, clientID w'))
     (Handshake (receiving [Payload [handshake_ok]] fresh)) = Return (None, ''c1'') \<and>
   map_outcome (\<lambda>(err, w'). clientID w')
     (Handshake (receiving [Payload [handshake_refused]] fresh)) = Return []"
proof -
  let ?b = "fresh\<lparr>conn := Some (conn0\<lparr>broken := Some ''closed''\<rparr>)\<rparr>"
  have cb: "conn ?b = Some (conn0\<lparr>broken := Some ''closed''\<rparr>)"
    by simp
  have cr: "conn (receiving rs fresh) = Some (conn0\<lparr>incoming := rs\<rparr>)" for rs
    by (simp add: receiving_fresh)
  have 1: "map_outcome (\<lambda>(err, w'). (err, clientID w')) (Handshake ?b)
       = Return (Some ''closed'', [])"
    using Handshake_stores_client_id [OF cb]
    by (auto simp: fresh_fields)
  have 2: "map_outcome (\<lambda>(err, w'). (err, clientID w')) (Handshake (receiving [ReadErr ''EOF''] fresh))
       = Return (Some ''EOF'', [])"
    using Handshake_stores_client_id [OF cr [of "[ReadErr ''EOF'']"]]
    by (auto simp: fresh_fields receiving_fields conn0_def)
  note t = Handshake_stores_client_id [THEN conjunct2, THEN conjunct2, rule_format]
  let ?ok = "fst (in_pass ((receiving [Payload [handshake_ok]] fresh)\<lparr>world :=
       snd (out_pass (receiving [Payload [handshake_ok]] fresh) handshake_frame)\<rparr>) handshake_ok)"
  let ?no = "fst (in_pass ((receiving [Payload [handshake_refused]] fresh)\<lparr>world :=
       snd (out_pass (receiving [Payload [handshake_refused]] fresh) handshake_frame)\<rparr>)
         handshake_refused)"
  have ok: "GetError ?ok = None" "ClientId ?ok = ''c1''"
    by (simp_all add: in_pass_opts0 receiving_fields fresh_fields GetError_def
        handshake_ok_def Message_zero_def)
  have no: "GetError ?no \<noteq> None"
    by (simp add: in_pass_opts0 receiving_fields fresh_fields GetError_def
        handshake_refused_def Message_zero_def)
  have "(GetError ?ok = None \<longrightarrow>
          (\<exists>w'. Handshake (receiving [Payload [handshake_ok]] fresh) = Return (None, w') \<and>
             clientID w' = ClientId ?ok)) \<and>
        (GetError ?ok \<noteq> None \<longrightarrow>
          (\<exists>e w'. Handshake (receiving [Payload [handshake_ok]] fresh) = Return (e, w') \<and>
             clientID w' = clientID (receiving [Payload [handshake_ok]] fresh)))"
    by (rule t [OF cr]) (simp add: conn0_def)
  with ok have 3: "map_outcome (\<lambda>(err, w'). (err, clientID w'))
     (Handshake (receiving [Payload [handshake_ok]] fresh)) = Return (None, ''c1'')"
    by auto
  have "(GetError ?no = None \<longrightarrow>
          (\<exists>w'. Handshake (receiving [Payload [handshake_refused]] fresh) = Return (None, w') \<and>
             clientID w' = ClientId ?no)) \<and>
        (GetError ?no \<noteq> None \<longrightarrow>
          (\<exists>e w'. Handshake (receiving [Payload [handshake_refused]] fresh) = Return (e, w') \<and>
             clientID w' = clientID (receiving [Payload [handshake_refused]] fresh)))"
    by (rule t [OF cr]) (simp add: conn0_def)
  with no have 4: "map_outcome (\<lambda>(err, w'). clientID w')
     (Handshake (receiving [Payload [handshake_refused]] fresh)) = Return []"
    by (auto simp: receiving_fields fresh_fields)
  from 1 2 3 4 show ?thesis by simp
qed

section \<open>A failed subscribe\<close>

lemma nack_on_subscribed:
  assumes "Channel m = MetaSubscribe" "\<not> Successful m" "Subscription m = ''/unauthorized''"
    "Advice m = None"
  shows "readWorker_iter by_payload (receiving (Payload [m] # later) subscribed)
      = Return (None, subscribed\<lparr>conn := Some (conn0\<lparr>written :=
            [[fst (out_pass fresh ((control_frame MetaSubscribe fresh)\<lparr>Subscription :=
                ''/unauthorized''\<rparr>))]], incoming := later\<rparr>),
          chans := (chans subscribed)(0 := \<lparr>queue =
            [if GetError m \<noteq> None then m\<lparr>Error := subscription_failed ''/unauthorized''\<rparr>
             else m], closed = True\<rparr>),
          subs := (subs subscribed)(MetaSubscribe := None)\<rparr>)"
proof -
  let ?c = "conn0\<lparr>written :=
     [[fst (out_pass fresh ((control_frame MetaSubscribe fresh)\<lparr>Subscription := ''/unauthorized''\<rparr>))]]\<rparr>"
  have d: "dispatch by_payload [m] (subscribed\<lparr>conn := Some (?c\<lparr>incoming := later\<rparr>)\<rparr>)
      = Return (subscribed\<lparr>conn := Some (?c\<lparr>incoming := later\<rparr>),
     chans := (chans subscribed)(0 := \<lparr>queue =
            [if GetError m \<noteq> None then m\<lparr>Error := subscription_failed ''/unauthorized''\<rparr>
             else m], closed = True\<rparr>),
     subs := (subs subscribed)(MetaSubscribe := None)\<rparr>)"
    using assms
    by (simp add: dispatch_def IsMetaMessage_def
        subscribe_failed_registered [where ch = 0] subscribed_fields)
  show ?thesis
    using iter_payload [where w = "receiving (Payload [m] # later) subscribed"
        and c = "?c\<lparr>incoming := Payload [m] # later\<rparr>" and payload = "[m]"
        and later = later and T = by_payload]
    by (simp add: receiving_fields subscribed_fields d receiving_def)
qed

text \<open>
  C1. The nack of the subscribe to \<open>/unauthorized\<close> arrives while the mailbox of that
  subscription is registered. The read loop replaces the error of the frame by the
  descriptive one, pushes the frame into the mailbox and closes the mailbox, and the
  consumer returns that one error. The registry entry of the subscription is still
  there afterwards: the loop deletes the key \<open>/meta/subscribe\<close>. A delivery on the channel
  that follows finds the closed mailbox and the loop panics on the send. A nack whose
  error is empty is pushed as it is: the consumer hands its nil payload to the handler
  and returns nil.
\<close>

theorem nack_leaves_entry_registered:
  "map_option (\<lambda>w'. (subs w' ''/unauthorized'', chans w' 0))
      (after_iter (readWorker_iter by_payload (receiving [Payload [nack]] subscribed)))
     = Some (Some 0, \<lparr>queue = [nack_injected], closed = True\<rparr>) \<and>
   Subscribe_range onMessage [nack_injected] True u
     = Return (Some ''susbscription `/unauthorized` failed'', u) \<and>
   readWorker by_payload (receiving [Payload [nack], Payload [delivery]] subscribed)
     = Panic SendOnClosedChannel \<and>
   map_option (\<lambda>w'. chans w' 0)
      (after_iter (readWorker_iter by_payload (receiving [Payload [nack\<lparr>Error := []\<rparr>]] subscribed)))
     = Some \<lparr>queue = [nack\<lparr>Error := []\<rparr>], closed = True\<rparr> \<and>
   Subscribe_range onMessage [nack\<lparr>Error := []\<rparr>] True u = Return (None, onMessage None u)"
proof -
  let ?c = "conn0\<lparr>written :=
     [[fst (out_pass fresh ((control_frame MetaSubscribe fresh)\<lparr>Subscription := ''/unauthorized''\<rparr>))]]\<rparr>"
  have n: "Channel nack = MetaSubscribe" "\<not> Successful nack"
    "Subscription nack = ''/unauthorized''" "Advice nack = None" "GetError nack \<noteq> None"
    "nack\<lparr>Error := subscription_failed ''/unauthorized''\<rparr> = nack_injected"
    by (simp_all add: nack_def Message_zero_def GetError_def nack_injected_def
        subscription_failed_def)
  have s: "Channel (nack\<lparr>Error := []\<rparr>) = MetaSubscribe" "\<not> Successful (nack\<lparr>Error := []\<rparr>)"
    "Subscription (nack\<lparr>Error := []\<rparr>) = ''/unauthorized''" "Advice (nack\<lparr>Error := []\<rparr>) = None"
    "GetError (nack\<lparr>Error := []\<rparr>) = None" "Data (nack\<lparr>Error := []\<rparr>) = None"
    by (simp_all add: nack_def Message_zero_def GetError_def)
  note i1 = nack_on_subscribed [OF n(1-4), unfolded n(6) if_P [OF n(5)]]
  have a: "map_option (\<lambda>w'. (subs w' ''/unauthorized'', chans w' 0))
      (after_iter (readWorker_iter by_payload (receiving [Payload [nack]] subscribed)))
     = Some (Some 0, \<lparr>queue = [nack_injected], closed = True\<rparr>)"
    by (simp add: i1 after_iter_def subscribed_fields MetaSubscribe_def)
  have b: "Subscribe_range onMessage [nack_injected] True u
     = Return (Some ''susbscription `/unauthorized` failed'', u)"
    by (simp add: nack_injected_def nack_def Message_zero_def GetError_def)
  let ?w2 = "subscribed\<lparr>conn := Some (?c\<lparr>incoming := [Payload [delivery]]\<rparr>),
     chans := (chans subscribed)(0 := \<lparr>queue = [nack_injected], closed = True\<rparr>),
     subs := (subs subscribed)(MetaSubscribe := None)\<rparr>"
  have d2: "dispatch by_payload [delivery] (?w2\<lparr>conn := Some (?c\<lparr>incoming := []\<rparr>)\<rparr>)
     = Panic SendOnClosedChannel"
    by (simp add: dispatch_def delivery_def Message_zero_def meta_defs by_payload_def
        event_delivery_eq subscribed_fields)
  have i2: "readWorker_iter by_payload ?w2 = Panic SendOnClosedChannel"
    using iter_payload [where w = ?w2
        and c = "?c\<lparr>incoming := [Payload [delivery]]\<rparr>" and payload = "[delivery]"
        and later = "[]" and T = by_payload] d2
    by (simp add: subscribed_fields)
  have c: "readWorker by_payload (receiving [Payload [nack], Payload [delivery]] subscribed)
     = Panic SendOnClosedChannel"
    by (subst readWorker.simps, simp add: i1, subst readWorker.simps, simp add: i2)
  have d: "map_option (\<lambda>w'. chans w' 0)
      (after_iter (readWorker_iter by_payload (receiving [Payload [nack\<lparr>Error := []\<rparr>]] subscribed)))
     = Some \<lparr>queue = [nack\<lparr>Error := []\<rparr>], closed = True\<rparr>"
    by (simp add: nack_on_subscribed [OF s(1-4)] s(5) after_iter_def)
  have e: "Subscribe_range onMessage [nack\<lparr>Error := []\<rparr>] True u = Return (None, onMessage None u)"
    by (simp add: s(5) s(6))
  from a b c d e show ?thesis by simp
qed

section \<open>The inbound pipeline\<close>

lemma advised_fields [simp]:
  "world (advised m w) = world w" "chans (advised m w) = chans w" "subs (advised m w) = subs w"
  "onPublishResponse (advised m w) = onPublishResponse w"
  "TransportOpts (advised m w) = TransportOpts w" "conn (advised m w) = conn w"
  by (simp_all add: advised_def handleAdvise_def split: option.split)

lemma dispatch_Cons:
  "dispatch T (msg # rest) w =
     (if IsMetaMessage msg then
        (if Channel msg = MetaSubscribe \<and> \<not> Successful msg
         then subscribe_failed msg (advised msg w) else Return (advised msg w))
      else if IsEventDelivery T msg then event_delivery msg (advised msg w)
      else if IsEventPublish T msg then event_publish msg (advised msg w)
      else Return (advised msg w))"
  by (simp add: dispatch_def advised_def Let_def)

lemma in_pass_cong:
  "TransportOpts v = TransportOpts w \<Longrightarrow> world v = world w \<Longrightarrow> in_pass v m = in_pass w m"
  by (simp add: in_pass_def)

lemma delivery_iter:
  assumes "conn w = Some c" and "\<not> stopCh_closed w"
    and "incoming c = Payload (msg # rest) # later"
    and "\<not> IsMetaMessage msg" and "IsEventDelivery T msg"
  shows "readWorker_iter T w =
     (case subs w (Channel msg) of
        None \<Rightarrow> Return (None, (advised msg (w\<lparr>conn := Some (c\<lparr>incoming := later\<rparr>)\<rparr>))
                  \<lparr>world := snd (in_pass w msg)\<rparr>)
      | Some ch \<Rightarrow>
          if closed (chans w ch) then Panic SendOnClosedChannel
          else Return (None, (advised msg (w\<lparr>conn := Some (c\<lparr>incoming := later\<rparr>)\<rparr>))
                 \<lparr>world := snd (in_pass w msg),
                  chans := (chans w)(ch := (chans w ch)\<lparr>queue :=
                    queue (chans w ch) @ [fst (in_pass w msg)]\<rparr>)\<rparr>))"
proof -
  let ?v = "advised msg (w\<lparr>conn := Some (c\<lparr>incoming := later\<rparr>)\<rparr>)"
  have "in_pass ?v msg = in_pass w msg"
    by (rule in_pass_cong) simp_all
  then show ?thesis
    using assms
    by (simp add: iter_payload dispatch_Cons event_delivery_eq split: option.split)
qed

lemma other_iter:
  assumes "conn w = Some c" and "\<not> stopCh_closed w"
    and "incoming c = Payload (msg # rest) # later"
    and "IsMetaMessage msg \<or> \<not> IsEventDelivery T msg"
    and "readWorker_iter T w = Return (None, w')"
  shows "world w' =
       (if \<not> IsMetaMessage msg \<and> IsEventPublish T msg
        then (case onPublishResponse w of
                None \<Rightarrow> world w
              | Some r \<Rightarrow> (case r (Channel msg) of
                   None \<Rightarrow> world w
                 | Some onPublish \<Rightarrow> onPublish msg (world w)))
        else world w)"
    and "queue (chans w' ch) = queue (chans w ch) @
       (if IsMetaMessage msg \<and> Channel msg = MetaSubscribe \<and> \<not> Successful msg \<and>
           subs w (Subscription msg) = Some ch
        then [if GetError msg \<noteq> None
              then msg\<lparr>Error := subscription_failed (Subscription msg)\<rparr> else msg]
        else [])"
proof -
  let ?v = "advised msg (w\<lparr>conn := Some (c\<lparr>incoming := later\<rparr>)\<rparr>)"
  have d: "dispatch T (msg # rest) (w\<lparr>conn := Some (c\<lparr>incoming := later\<rparr>)\<rparr>) = Return w'"
    using assms(1-3,5) by (simp add: iter_payload split: outcome.splits)
  consider (nack) "IsMetaMessage msg" "Channel msg = MetaSubscribe \<and> \<not> Successful msg"
    | (meta) "IsMetaMessage msg" "\<not> (Channel msg = MetaSubscribe \<and> \<not> Successful msg)"
    | (pub) "\<not> IsMetaMessage msg" "\<not> IsEventDelivery T msg" "IsEventPublish T msg"
    | (none) "\<not> IsMetaMessage msg" "\<not> IsEventDelivery T msg" "\<not> IsEventPublish T msg"
    using assms(4) by blast
  then have "world w' =
       (if \<not> IsMetaMessage msg \<and> IsEventPublish T msg
        then (case onPublishResponse w of
                None \<Rightarrow> world w
              | Some r \<Rightarrow> (case r (Channel msg) of
                   None \<Rightarrow> world w
                 | Some onPublish \<Rightarrow> onPublish msg (world w)))
        else world w) \<and>
     queue (chans w' ch) = queue (chans w ch) @
       (if IsMetaMessage msg \<and> Channel msg = MetaSubscribe \<and> \<not> Successful msg \<and>
           subs w (Subscription msg) = Some ch
        then [if GetError msg \<noteq> None
              then msg\<lparr>Error := subscription_failed (Subscription msg)\<rparr> else msg]
        else [])"
  proof cases
    case nack
    show ?thesis
    proof (cases "subs w (Subscription msg)")
      case None
      with d nack show ?thesis
        by (simp add: dispatch_Cons subscribe_failed_unregistered)
    next
      case (Some ch')
      then have "subs ?v (Subscription msg) = Some ch'" by simp
      from subscribe_failed_registered [OF this] d nack Some show ?thesis
        by (auto simp: dispatch_Cons split: if_splits)
    qed
  next
    case meta
    with d show ?thesis by (auto simp: dispatch_Cons)
  next
    case pub
    with d show ?thesis
      by (auto simp: dispatch_Cons event_publish_eq split: option.splits)
  next
    case none
    with d show ?thesis by (auto simp: dispatch_Cons)
  qed
  then show "world w' =
       (if \<not> IsMetaMessage msg \<and> IsEventPublish T msg
        then (case onPublishResponse w of
                None \<Rightarrow> world w
              | Some r \<Rightarrow> (case r (Channel msg) of
                   None \<Rightarrow> world w
                 | Some onPublish \<Rightarrow> onPublish msg (world w)))
        else world w)"
    and "queue (chans w' ch) = queue (chans w ch) @
       (if IsMetaMessage msg \<and> Channel msg = MetaSubscribe \<and> \<not> Successful msg \<and>
           subs w (Subscription msg) = Some ch
        then [if GetError msg \<noteq> None
              then msg\<lparr>Error := subscription_failed (Subscription msg)\<rparr> else msg]
        else [])"
    by simp_all
qed

lemma Handshake_world:
  assumes "conn w = Some c" and "broken c = None"
    and "incoming c = Payload (msg # rest) # later"
  shows "\<exists>w'. Handshake w = Return (None, w') \<and>
     world w' = snd (in_pass (w\<lparr>world := snd (out_pass w handshake_frame)\<rparr>) msg)"
  using Handshake_payload [OF assms(1,2), of "msg # rest" later] assms(3)
  by (simp add: applyInExtensions_def in_pass_def split_def)

lemma listening_fields:
  "TransportOpts listening = opts0" "conn listening = Some conn0" "world listening = 0"
  "stopCh_closed listening = False" "onPublishResponse listening = Some [''/test'' \<mapsto> acked]"
  "chans listening = chans fresh" "subs listening = Map.empty"
  by (simp_all add: listening_def fresh_fields conn_fresh)

lemma publish_ack_class:
  "\<not> IsMetaMessage publish_ack" "\<not> IsEventDelivery by_payload publish_ack"
  "IsEventPublish by_payload publish_ack" "Channel publish_ack = ''/test''"
  "Ext publish_ack = []" "Advice publish_ack = None"
  by (simp_all add: publish_ack_def Message_zero_def meta_defs by_payload_def)

lemma delivery_class:
  "\<not> IsMetaMessage delivery" "IsEventDelivery by_payload delivery"
  "Channel delivery = ''/unauthorized''" "Ext delivery = []"
  by (simp_all add: delivery_def Message_zero_def meta_defs by_payload_def)

lemma nack_class:
  "IsMetaMessage nack" "Channel nack = MetaSubscribe" "\<not> Successful nack"
  "Subscription nack = ''/unauthorized''" "GetError nack \<noteq> None" "Advice nack = None"
  "nack\<lparr>Error := subscription_failed ''/unauthorized''\<rparr> = nack_injected"
  "Ext nack_injected = []"
  by (simp_all add: nack_def Message_zero_def meta_defs GetError_def nack_injected_def
      subscription_failed_def)

text \<open>
  C4, as stated, fails: the read loop takes a publish acknowledgment off the socket and
  hands it to the registered callback without a pass of the inbound pipeline. One pass
  would tag the frame and count one call; the callback sees the frame without the marker
  and no call is counted.
\<close>

theorem publish_ack_bypasses_inbound_pipeline_counterexample:
  "in_pass listening publish_ack = (publish_ack\<lparr>Ext := [''in'']\<rparr>, 1) \<and>
   map_option world
     (after_iter (readWorker_iter by_payload (receiving [Payload [publish_ack]] listening)))
     = Some 10"
proof -
  let ?w = "receiving [Payload [publish_ack]] listening"
  have d: "dispatch by_payload [publish_ack] (?w\<lparr>conn := Some (conn0\<lparr>incoming := []\<rparr>)\<rparr>)
     = Return ((?w\<lparr>conn := Some (conn0\<lparr>incoming := []\<rparr>)\<rparr>)\<lparr>world := 10\<rparr>)"
    by (simp add: dispatch_Cons publish_ack_class event_publish_eq receiving_fields
        listening_fields advised_def acked_def)
  have "readWorker_iter by_payload ?w
     = Return (None, (?w\<lparr>conn := Some (conn0\<lparr>incoming := []\<rparr>)\<rparr>)\<lparr>world := 10\<rparr>)"
    using iter_payload [where w = ?w and c = "conn0\<lparr>incoming := [Payload [publish_ack]]\<rparr>"
        and payload = "[publish_ack]" and later = "[]" and T = by_payload]
    by (simp add: receiving_fields listening_fields d)
  then show ?thesis
    by (simp add: after_iter_def in_pass_opts0 listening_fields publish_ack_class)
qed

text \<open>
  C4, amended. In an iteration of the read loop that takes a batch off the socket, the
  inbound pipeline runs exactly once over the first element when that element is an event
  delivery, whether or not a mailbox is registered for its channel, and the frame pushed
  into the mailbox is the result of that pass. On every other frame the pipeline does not
  run: a control response leaves the state of the closures as it is, the nack of a
  subscribe is pushed as read (with the error replaced, if it has one), and a publish
  acknowledgment goes to its callback as read. The handshake response is not read by the
  loop: \<open>Handshake\<close> runs the inbound pipeline once over it, inline, after the outbound
  pass of its own frame.
\<close>

theorem inbound_pipeline_on_deliveries_only:
  assumes "conn w = Some c" and "\<not> stopCh_closed w"
    and "incoming c = Payload (msg # rest) # later"
  shows "(\<not> IsMetaMessage msg \<and> IsEventDelivery T msg \<longrightarrow>
      (\<forall>ch. subs w (Channel msg) = Some ch \<and> closed (chans w ch) \<longrightarrow>
         readWorker_iter T w = Panic SendOnClosedChannel) \<and>
      ((\<forall>ch. subs w (Channel msg) = Some ch \<longrightarrow> \<not> closed (chans w ch)) \<longrightarrow>
         (\<exists>w'. readWorker_iter T w = Return (None, w') \<and>
            world w' = snd (in_pass w msg) \<and>
            (\<forall>ch. queue (chans w' ch) = queue (chans w ch) @
               (if subs w (Channel msg) = Some ch then [fst (in_pass w msg)] else [])))))
    \<and> (IsMetaMessage msg \<or> \<not> IsEventDelivery T msg \<longrightarrow>
      (\<forall>w'. readWorker_iter T w = Return (None, w') \<longrightarrow>
         world w' =
           (if \<not> IsMetaMessage msg \<and> IsEventPublish T msg
            then (case onPublishResponse w of
                    None \<Rightarrow> world w
                  | Some r \<Rightarrow> (case r (Channel msg) of
                       None \<Rightarrow> world w
                     | Some onPublish \<Rightarrow> onPublish msg (world w)))
            else world w) \<and>
         (\<forall>ch. queue (chans w' ch) = queue (chans w ch) @
            (if IsMetaMessage msg \<and> Channel msg = MetaSubscribe \<and> \<not> Successful msg \<and>
                subs w (Subscription msg) = Some ch
             then [if GetError msg \<noteq> None
                   then msg\<lparr>Error := subscription_failed (Subscription msg)\<rparr> else msg]
             else []))))
    \<and> (broken c = None \<longrightarrow>
      (\<exists>w'. Handshake w = Return (None, w') \<and>
         world w' = snd (in_pass (w\<lparr>world := snd (out_pass w handshake_frame)\<rparr>) msg)))"
proof (intro conjI impI allI)
  fix ch
  assume "\<not> IsMetaMessage msg \<and> IsEventDelivery T msg"
    and "subs w (Channel msg) = Some ch \<and> closed (chans w ch)"
  then show "readWorker_iter T w = Panic SendOnClosedChannel"
    using delivery_iter [OF assms, of T] by simp
next
  assume a: "\<not> IsMetaMessage msg \<and> IsEventDelivery T msg"
    and o: "\<forall>ch. subs w (Channel msg) = Some ch \<longrightarrow> \<not> closed (chans w ch)"
  show "\<exists>w'. readWorker_iter T w = Return (None, w') \<and>
            world w' = snd (in_pass w msg) \<and>
            (\<forall>ch. queue (chans w' ch) = queue (chans w ch) @
               (if subs w (Channel msg) = Some ch then [fst (in_pass w msg)] else []))"
  proof (cases "subs w (Channel msg)")
    case None
    with a show ?thesis
      using delivery_iter [OF assms, of T] by simp
  next
    case (Some ch')
    with o have "\<not> closed (chans w ch')" by simp
    with a Some show ?thesis
      using delivery_iter [OF assms, of T] by simp
  qed
next
  fix w'
  assume "IsMetaMessage msg \<or> \<not> IsEventDelivery T msg"
    and "readWorker_iter T w = Return (None, w')"
  from other_iter(1) [OF assms this]
  show "world w' =
           (if \<not> IsMetaMessage msg \<and> IsEventPublish T msg
            then (case onPublishResponse w of
                    None \<Rightarrow> world w
                  | Some r \<Rightarrow> (case r (Channel msg) of
                       None \<Rightarrow> world w
                     | Some onPublish \<Rightarrow> onPublish msg (world w)))
            else world w)" .
next
  fix w' ch
  assume "IsMetaMessage msg \<or> \<not> IsEventDelivery T msg"
    and "readWorker_iter T w = Return (None, w')"
  from other_iter(2) [OF assms this]
  show "queue (chans w' ch) = queue (chans w ch) @
            (if IsMetaMessage msg \<and> Channel msg = MetaSubscribe \<and> \<not> Successful msg \<and>
                subs w (Subscription msg) = Some ch
             then [if GetError msg \<noteq> None
                   then msg\<lparr>Error := subscription_failed (Subscription msg)\<rparr> else msg]
             else [])" .
next
  assume "broken c = None"
  from Handshake_world [OF assms(1) this assms(3)]
  show "\<exists>w'. Handshake w = Return (None, w') \<and>
         world w' = snd (in_pass (w\<lparr>world := snd (out_pass w handshake_frame)\<rparr>) msg)" .
qed

theorem inbound_pipeline_on_deliveries_only_witness:
  "map_option (\<lambda>w'. (world w', queue (chans w' 0)))
      (after_iter (readWorker_iter by_payload (receiving [Payload [delivery]] subscribed)))
     = Some (2, [delivery\<lparr>Ext := [''in'']\<rparr>]) \<and>
   map_option (\<lambda>w'. (world w', queue (chans w' 0)))
      (after_iter (readWorker_iter by_payload (receiving [Payload [nack]] subscribed)))
     = Some (1, [nack_injected]) \<and>
   map_outcome (\<lambda>(e, w'). world w') (Handshake (receiving [Payload [handshake_ok]] fresh))
     = Return 2"
proof -
  let ?c = "conn0\<lparr>written :=
     [[fst (out_pass fresh ((control_frame MetaSubscribe fresh)\<lparr>Subscription := ''/unauthorized''\<rparr>))]]\<rparr>"
  let ?d = "receiving [Payload [delivery]] subscribed"
  let ?n = "receiving [Payload [nack]] subscribed"
  let ?h = "receiving [Payload [handshake_ok]] fresh"
  have cd: "conn ?d = Some (?c\<lparr>incoming := [Payload [delivery]]\<rparr>)"
    and cn: "conn ?n = Some (?c\<lparr>incoming := [Payload [nack]]\<rparr>)"
    and ch: "conn ?h = Some (conn0\<lparr>incoming := [Payload [handshake_ok]]\<rparr>)"
    by (simp_all add: receiving_fields subscribed_fields conn_fresh)
  have sd: "\<not> stopCh_closed ?d" and sn: "\<not> stopCh_closed ?n" and sh: "\<not> stopCh_closed ?h"
    by (simp_all add: receiving_fields subscribed_fields fresh_fields)
  have id: "incoming (?c\<lparr>incoming := [Payload [delivery]]\<rparr>) = Payload (delivery # []) # []"
    and "in": "incoming (?c\<lparr>incoming := [Payload [nack]]\<rparr>) = Payload (nack # []) # []"
    and ih: "incoming (conn0\<lparr>incoming := [Payload [handshake_ok]]\<rparr>)
        = Payload (handshake_ok # []) # []"
    by simp_all
  have pd: "in_pass ?d delivery = (delivery\<lparr>Ext := [''in'']\<rparr>, 2)"
    by (simp add: in_pass_opts0 receiving_fields subscribed_fields delivery_class)
  from inbound_pipeline_on_deliveries_only [OF cd sd id, of by_payload]
  have 1: "map_option (\<lambda>w'. (world w', queue (chans w' 0)))
      (after_iter (readWorker_iter by_payload ?d)) = Some (2, [delivery\<lparr>Ext := [''in'']\<rparr>])"
    by (auto simp: delivery_class receiving_fields subscribed_fields pd after_iter_def)
  obtain w' where r: "readWorker_iter by_payload ?n = Return (None, w')"
    using nack_on_subscribed [of nack "[]"] by (simp add: nack_class)
  with inbound_pipeline_on_deliveries_only [OF cn sn "in", of by_payload]
  have 2: "map_option (\<lambda>w'. (world w', queue (chans w' 0)))
      (after_iter (readWorker_iter by_payload ?n)) = Some (1, [nack_injected])"
    by (simp add: nack_class receiving_fields subscribed_fields after_iter_def)
  from inbound_pipeline_on_deliveries_only [OF ch sh ih, of by_payload]
  have 3: "map_outcome (\<lambda>(e, w'). world w') (Handshake ?h) = Return 2"
    by (auto simp: conn0_def in_pass_opts0 out_pass_opts0 receiving_fields fresh_fields)
  from 1 2 3 show ?thesis by simp
qed

section \<open>The first element of a batch\<close>

text \<open>
  C8. In an iteration of the read loop that takes a batch off the socket, the first
  element of the batch is classified and routed: after its advice is stored, a control
  frame goes to the handling of a failed subscribe or is left alone, an event delivery
  goes to the delivery into its mailbox, and a publish acknowledgment to its callback.
  Whatever follows the first element in the batch is dropped: the iteration is the
  dispatch of the first element alone, and the iteration and the whole run of the loop
  come out exactly as if the batch had held that element alone, so the registries, the
  advice store and the mailboxes do not depend on the other elements.
\<close>

theorem only_first_element:
  assumes "\<not> stopCh_closed w"
  shows "dispatch T (msg # rest) w =
       (if IsMetaMessage msg then
          (if Channel msg = MetaSubscribe \<and> \<not> Successful msg
           then subscribe_failed msg (advised msg w) else Return (advised msg w))
        else if IsEventDelivery T msg then event_delivery msg (advised msg w)
        else if IsEventPublish T msg then event_publish msg (advised msg w)
        else Return (advised msg w)) \<and>
   readWorker_iter T (w\<lparr>conn := Some (c\<lparr>incoming := Payload (msg # rest) # later\<rparr>)\<rparr>)
     = (case dispatch T [msg] (w\<lparr>conn := Some (c\<lparr>incoming := later\<rparr>)\<rparr>) of
          Panic p \<Rightarrow> Panic p | Blocks \<Rightarrow> Blocks | Return w' \<Rightarrow> Return (None, w')) \<and>
   readWorker_iter T (w\<lparr>conn := Some (c\<lparr>incoming := Payload (msg # rest) # later\<rparr>)\<rparr>)
     = readWorker_iter T (w\<lparr>conn := Some (c\<lparr>incoming := Payload [msg] # later\<rparr>)\<rparr>) \<and>
   readWorker T (w\<lparr>conn := Some (c\<lparr>incoming := Payload (msg # rest) # later\<rparr>)\<rparr>)
     = readWorker T (w\<lparr>conn := Some (c\<lparr>incoming := Payload [msg] # later\<rparr>)\<rparr>)"
proof -
  have d: "dispatch T (msg # rest) v = dispatch T [msg] v" for v :: "('a, 'b) Websocket"
    by (simp add: dispatch_def)
  have j: "readWorker_iter T (w\<lparr>conn := Some (c\<lparr>incoming := Payload (msg # rest) # later\<rparr>)\<rparr>)
     = (case dispatch T [msg] (w\<lparr>conn := Some (c\<lparr>incoming := later\<rparr>)\<rparr>) of
          Panic p \<Rightarrow> Panic p | Blocks \<Rightarrow> Blocks | Return w' \<Rightarrow> Return (None, w'))"
    using assms by (simp add: iter_payload d)
  have i: "readWorker_iter T (w\<lparr>conn := Some (c\<lparr>incoming := Payload (msg # rest) # later\<rparr>)\<rparr>)
     = readWorker_iter T (w\<lparr>conn := Some (c\<lparr>incoming := Payload [msg] # later\<rparr>)\<rparr>)"
    using assms by (simp add: iter_payload d)
  have "readWorker T (w\<lparr>conn := Some (c\<lparr>incoming := Payload (msg # rest) # later\<rparr>)\<rparr>)
     = readWorker T (w\<lparr>conn := Some (c\<lparr>incoming := Payload [msg] # later\<rparr>)\<rparr>)"
    by (subst readWorker.simps, subst (2) readWorker.simps) (simp only: i)
  with i j show ?thesis by (simp only: dispatch_Cons simp_thms)
qed

text \<open>
  A publish acknowledgment at the head of a batch reaches its callback, and the nack and
  the delivery behind it leave no trace; a delivery at the head of a batch is pushed into
  its mailbox, and the nack behind it does not close the mailbox.
\<close>

theorem only_first_element_witness:
  "map_option (\<lambda>w'. (world w', subs w', chans w' 0))
      (after_iter (readWorker_iter by_payload
         (receiving [Payload [publish_ack, nack, delivery]] listening)))
     = Some (10, Map.empty, \<lparr>queue = [], closed = False\<rparr>) \<and>
   map_option (\<lambda>w'. (world w', chans w' 0))
      (after_iter (readWorker_iter by_payload (receiving [Payload [delivery, nack]] subscribed)))
     = Some (2, \<lparr>queue = [delivery\<lparr>Ext := [''in'']\<rparr>], closed = False\<rparr>)"
proof -
  let ?l = "listening\<lparr>conn := Some (conn0\<lparr>incoming := []\<rparr>)\<rparr>"
  have nl: "\<not> stopCh_closed listening"
    by (simp add: listening_fields)
  have rl: "receiving rs listening = listening\<lparr>conn := Some (conn0\<lparr>incoming := rs\<rparr>)\<rparr>" for rs
    by (simp add: receiving_def listening_fields)
  note tl = only_first_element [OF nl, where T = by_payload and msg = publish_ack
      and rest = "[]" and c = conn0 and later = "[]"]
  note tl' = only_first_element [OF nl, where T = by_payload and msg = publish_ack
      and rest = "[nack, delivery]" and c = conn0 and later = "[]"]
  have dl: "dispatch by_payload [publish_ack] ?l = Return (?l\<lparr>world := 10\<rparr>)"
    using only_first_element [where w = ?l and T = by_payload and msg = publish_ack
      and rest = "[]", THEN conjunct1]
    by (simp add: publish_ack_class event_publish_eq listening_fields advised_def acked_def)
  from tl' dl have 1: "map_option (\<lambda>w'. (world w', subs w', chans w' 0))
      (after_iter (readWorker_iter by_payload
         (receiving [Payload [publish_ack, nack, delivery]] listening)))
     = Some (10, Map.empty, \<lparr>queue = [], closed = False\<rparr>)"
    by (simp add: rl after_iter_def listening_fields fresh_fields)
  let ?c = "conn0\<lparr>written :=
     [[fst (out_pass fresh ((control_frame MetaSubscribe fresh)\<lparr>Subscription := ''/unauthorized''\<rparr>))]]\<rparr>"
  let ?s = "subscribed\<lparr>conn := Some (?c\<lparr>incoming := []\<rparr>)\<rparr>"
  have ns: "\<not> stopCh_closed subscribed"
    by (simp add: subscribed_fields)
  have rs: "receiving rs subscribed = subscribed\<lparr>conn := Some (?c\<lparr>incoming := rs\<rparr>)\<rparr>" for rs
    by (simp add: receiving_def subscribed_fields)
  note ts' = only_first_element [OF ns, where T = by_payload and msg = delivery
      and rest = "[nack]" and c = ?c and later = "[]"]
  have ps: "in_pass (advised delivery ?s) delivery = (delivery\<lparr>Ext := [''in'']\<rparr>, 2)"
    by (simp add: in_pass_opts0 subscribed_fields delivery_class)
  have ds: "dispatch by_payload [delivery] ?s
     = Return ((advised delivery ?s)\<lparr>world := 2,
         chans := (chans subscribed)(0 := \<lparr>queue = [delivery\<lparr>Ext := [''in'']\<rparr>], closed = False\<rparr>)\<rparr>)"
    using only_first_element [where w = ?s and T = by_payload and msg = delivery
      and rest = "[]", THEN conjunct1]
    by (simp add: delivery_class event_delivery_eq subscribed_fields ps)
  from ts' ds have 2: "map_option (\<lambda>w'. (world w', chans w' 0))
      (after_iter (readWorker_iter by_payload (receiving [Payload [delivery, nack]] subscribed)))
     = Some (2, \<lparr>queue = [delivery\<lparr>Ext := [''in'']\<rparr>], closed = False\<rparr>)"
    by (simp add: rs after_iter_def)
  from 1 2 show ?thesis by simp
qed

section \<open>Disconnect\<close>

lemma advised_more [simp]:
  "msgID (advised m w) = msgID w" "stopCh_closed (advised m w) = stopCh_closed w"
  "clientID (advised m w) = clientID w" "workers (advised m w) = workers w"
  by (simp_all add: advised_def handleAdvise_def split: option.split)

lemma dispatch_keeps:
  assumes "dispatch T p w = Return w'"
  shows "msgID w' = msgID w \<and> TransportOpts w' = TransportOpts w \<and> conn w' = conn w \<and>
     stopCh_closed w' = stopCh_closed w \<and> clientID w' = clientID w"
proof (cases p)
  case Nil
  with assms show ?thesis by (simp add: dispatch_def)
next
  case (Cons m ms)
  show ?thesis
  proof (cases "IsMetaMessage m \<and> Channel m = MetaSubscribe \<and> \<not> Successful m")
    case True
    show ?thesis
    proof (cases "subs (advised m w) (Subscription m)")
      case None
      with assms Cons True show ?thesis
        by (simp add: dispatch_Cons subscribe_failed_unregistered)
    next
      case (Some ch)
      from subscribe_failed_registered [OF this] assms Cons True show ?thesis
        by (auto simp: dispatch_Cons split: if_splits)
    qed
  next
    case False
    with assms Cons show ?thesis
      by (auto simp: dispatch_Cons event_delivery_eq event_publish_eq
          split: if_splits option.splits)
  qed
qed

lemma ReadJSON_keeps:
  "ReadJSON c = Some (r, c') \<Longrightarrow> written c' = written c \<and> broken c' = broken c"
  by (auto simp: ReadJSON_def split: list.splits)

lemma await_stop_keeps:
  "await_stop T w = Return v \<Longrightarrow>
     msgID v = msgID w \<and> TransportOpts v = TransportOpts w \<and>
     stopCh_closed v = stopCh_closed w \<and> clientID v = clientID w \<and>
     map_option written (conn v) = map_option written (conn w) \<and>
     map_option broken (conn v) = map_option broken (conn w)"
proof (induction T w rule: await_stop.induct)
  case (1 T w)
  from "1.prems" have nz: "workers w \<noteq> 0"
    by (subst (asm) await_stop.simps) (simp split: if_splits)
  from "1.prems" nz obtain c where c: "conn w = Some c"
    by (subst (asm) await_stop.simps) (auto split: option.splits)
  from "1.prems" nz c obtain r c' where rd: "ReadJSON c = Some (r, c')"
    by (subst (asm) await_stop.simps) (auto split: option.splits)
  note k = ReadJSON_keeps [OF rd]
  show ?case
  proof (cases r)
    case (ReadErr err)
    with "1.prems" nz c rd
    have "await_stop T (w\<lparr>conn := Some c', workers := workers w - 1\<rparr>) = Return v"
      by (subst (asm) await_stop.simps) simp
    from "1.IH" [OF nz c rd refl ReadErr this] c k show ?thesis
      by simp
  next
    case (Payload p)
    with "1.prems" nz c rd obtain w' where
      d: "dispatch T p (w\<lparr>conn := Some c'\<rparr>) = Return w'" and v: "v = w'\<lparr>workers := workers w' - 1\<rparr>"
      by (subst (asm) await_stop.simps) (auto split: outcome.splits)
    from dispatch_keeps [OF d] v c k show ?thesis
      by simp
  qed
qed

lemma await_stop_payload:
  assumes "workers w \<noteq> 0" "conn w = Some c" "incoming c = Payload p # later"
  shows "await_stop T w =
     (case dispatch T p (w\<lparr>conn := Some (c\<lparr>incoming := later\<rparr>)\<rparr>) of
        Panic q \<Rightarrow> Panic q | Blocks \<Rightarrow> Blocks
      | Return w' \<Rightarrow> Return (w'\<lparr>workers := workers w' - 1\<rparr>))"
  using assms by (subst await_stop.simps) (simp add: ReadJSON_def)

lemma await_stop_blocks:
  "workers w = 0 \<Longrightarrow> await_stop T w = Blocks"
  "conn w = Some c \<Longrightarrow> incoming c = [] \<Longrightarrow> await_stop T w = Blocks"
  by (subst await_stop.simps, simp add: ReadJSON_def)+

lemma Disconnect_returns:
  assumes "conn w = Some c" and "Disconnect T w = Return (e, w')"
  shows "e = broken c \<and>
     (\<exists>v. await_stop T (w\<lparr>msgID := msgID w + 1\<rparr>) = Return v \<and>
        TransportOpts v = TransportOpts w \<and>
        wire w' = written c @
          (if broken c = None then [[fst (out_pass v (control_frame MetaDisconnect w))]] else []) \<and>
        world w' = snd (out_pass v (control_frame MetaDisconnect w)))"
proof -
  from assms(2) obtain v where
    a: "await_stop T (w\<lparr>msgID := msgID w + 1\<rparr>) = Return v" and
    s: "sendMessage (control_frame MetaDisconnect w) (v\<lparr>stopCh_closed := True\<rparr>) = Return (e, w')"
    by (auto simp: Disconnect_def nextMsgID_def control_frame_def Message_zero_def
        split: if_splits outcome.splits)
  from await_stop_keeps [OF a] assms(1) obtain c' where
    c': "conn v = Some c'" "written c' = written c" "broken c' = broken c"
    and o: "TransportOpts v = TransportOpts w"
    by auto
  from c'(1) have "conn (v\<lparr>stopCh_closed := True\<rparr>) = Some c'"
    by simp
  from sendMessage_conn [OF this, of "control_frame MetaDisconnect w"] s c'(2,3)
  have "e = broken c \<and>
     wire w' = written c @
          (if broken c = None then [[fst (out_pass v (control_frame MetaDisconnect w))]] else []) \<and>
        world w' = snd (out_pass v (control_frame MetaDisconnect w))"
    by (auto simp: wire_def)
  with a o show ?thesis by blast
qed

lemma Disconnect_live:
  assumes "\<not> stopCh_closed w" and "await_stop T (w\<lparr>msgID := msgID w + 1\<rparr>) = Return v"
    and "conn v = Some c'"
  shows "\<exists>e w'. Disconnect T w = Return (e, w')"
proof -
  from assms(3) have "conn (v\<lparr>stopCh_closed := True\<rparr>) = Some c'"
    by simp
  from sendMessage_conn [OF this] assms(1,2) show ?thesis
    by (simp add: Disconnect_def nextMsgID_def)
qed

lemma Connect_live:
  assumes "conn w = Some c" "broken c = None"
  shows "Connect w = Return (None,
     w\<lparr>msgID := msgID w + 1, workers := Suc (workers w),
       world := snd (out_pass w ((control_frame MetaConnect w)\<lparr>ConnectionType := transportName\<rparr>)),
       conn := Some (c\<lparr>written := written c @
          [[fst (out_pass w ((control_frame MetaConnect w)\<lparr>ConnectionType := transportName\<rparr>))]]\<rparr>)\<rparr>)"
proof -
  have "conn (w\<lparr>msgID := msgID w + 1, workers := Suc (workers w)\<rparr>) = Some c"
    using assms(1) by simp
  from sendMessage_conn [OF this] assms(2) show ?thesis
    by (simp add: Connect_def nextMsgID_def control_frame_def Message_zero_def)
qed

lemma connected_fields:
  "workers connected = 1" "stopCh_closed connected = False" "TransportOpts connected = opts0"
  "msgID connected = 1" "world connected = 1"
  "conn connected = Some (conn0\<lparr>written :=
     [[fst (out_pass fresh ((control_frame MetaConnect fresh)\<lparr>ConnectionType := transportName\<rparr>))]]\<rparr>)"
proof -
  have b: "broken conn0 = None" by (simp add: conn0_def)
  note r = Connect_live [OF conn_fresh b]
  show "workers connected = 1" "stopCh_closed connected = False"
    "TransportOpts connected = opts0" "msgID connected = 1" "world connected = 1"
    by (simp_all add: connected_def r fresh_fields out_pass_opts0)
  show "conn connected = Some (conn0\<lparr>written :=
     [[fst (out_pass fresh ((control_frame MetaConnect fresh)\<lparr>ConnectionType := transportName\<rparr>))]]\<rparr>)"
    by (simp add: connected_def r conn0_def)
qed

lemma connect_ack_class:
  "IsMetaMessage connect_ack" "Channel connect_ack \<noteq> MetaSubscribe" "Advice connect_ack = None"
  by (simp_all add: connect_ack_def Message_zero_def meta_defs)

section \<open>The outbound pipeline\<close>

text \<open>
  C5. Every operation that sends (Handshake, Connect, Disconnect, Subscribe, Unsubscribe,
  Publish) puts its frame on the wire through the send primitive: what the call adds to
  the wire is one batch holding one frame, the result of one pass of the outbound pipeline
  over the frame the operation built, and nothing when the write fails. Connect,
  Subscribe, Unsubscribe and Publish always return on a connection that is there.
  Handshake is covered where it returns. Disconnect returns once a worker has taken the
  stop signal; the pass over its frame then starts from the state of the closures that
  the worker has left.
\<close>

theorem every_send_through_pipeline:
  assumes "conn w = Some c"
  shows "(\<forall>e w'. Handshake w = Return (e, w') \<longrightarrow>
            wire w' = written c @
              (if broken c = None then [[fst (out_pass w handshake_frame)]] else []))
    \<and> (\<exists>w'. Connect w = Return (broken c, w')
          \<and> sent_once w c ((control_frame MetaConnect w)\<lparr>ConnectionType := transportName\<rparr>) w')
    \<and> (\<forall>e w'. Disconnect T w = Return (e, w') \<longrightarrow>
            e = broken c \<and>
            (\<exists>v. await_stop T (w\<lparr>msgID := msgID w + 1\<rparr>) = Return v \<and>
               TransportOpts v = TransportOpts w \<and>
               wire w' = written c @
                 (if broken c = None
                  then [[fst (out_pass v (control_frame MetaDisconnect w))]] else []) \<and>
               world w' = snd (out_pass v (control_frame MetaDisconnect w))))
    \<and> (\<exists>r w'. Subscribe_register s w = Return (r, w')
          \<and> sent_once w c ((control_frame MetaSubscribe w)\<lparr>Subscription := s\<rparr>) w')
    \<and> (\<exists>w'. Unsubscribe s w = Return (broken c, w')
          \<and> sent_once w c ((control_frame MetaUnsubscribe w)\<lparr>Subscription := s\<rparr>) w')
    \<and> (\<exists>r w'. Publish s d w = Return (r, w')
          \<and> sent_once w c ((control_frame s w)\<lparr>Data := d\<rparr>) w')"
proof -
  have hs: "\<forall>e w'. Handshake w = Return (e, w') \<longrightarrow>
            wire w' = written c @
              (if broken c = None then [[fst (out_pass w handshake_frame)]] else [])"
    using Handshake_wire [OF assms] by blast
  have co: "\<exists>w'. Connect w = Return (broken c, w')
          \<and> sent_once w c ((control_frame MetaConnect w)\<lparr>ConnectionType := transportName\<rparr>) w'"
    using assms
    by (simp add: Connect_def nextMsgID_def sendMessage_conn sent_once_def wire_def
        control_frame_def Message_zero_def)
  have di: "\<forall>e w'. Disconnect T w = Return (e, w') \<longrightarrow>
            e = broken c \<and>
            (\<exists>v. await_stop T (w\<lparr>msgID := msgID w + 1\<rparr>) = Return v \<and>
               TransportOpts v = TransportOpts w \<and>
               wire w' = written c @
                 (if broken c = None
                  then [[fst (out_pass v (control_frame MetaDisconnect w))]] else []) \<and>
               world w' = snd (out_pass v (control_frame MetaDisconnect w)))"
    using Disconnect_returns [OF assms] by blast
  have su: "\<exists>r w'. Subscribe_register s w = Return (r, w')
          \<and> sent_once w c ((control_frame MetaSubscribe w)\<lparr>Subscription := s\<rparr>) w'"
    using assms
    by (cases "broken c")
      (simp_all add: Subscribe_register_def nextMsgID_def sendMessage_conn sent_once_def
        wire_def control_frame_def Message_zero_def Let_def)
  have un: "\<exists>w'. Unsubscribe s w = Return (broken c, w')
          \<and> sent_once w c ((control_frame MetaUnsubscribe w)\<lparr>Subscription := s\<rparr>) w'"
    using assms
    by (simp add: Unsubscribe_def nextMsgID_def sendMessage_conn sent_once_def wire_def
        control_frame_def Message_zero_def)
  have pu: "\<exists>r w'. Publish s d w = Return (r, w')
          \<and> sent_once w c ((control_frame s w)\<lparr>Data := d\<rparr>) w'"
    using assms
    by (cases "broken c")
      (simp_all add: Publish_def nextMsgID_def sendMessage_conn sent_once_def
        wire_def control_frame_def Message_zero_def)
  from hs co di su un pu show ?thesis by blast
qed

text \<open>
  With an outbound extension that tags a frame with the marker \<open>out\<close>, the one frame each
  operation puts on the wire carries the marker exactly once. \<open>Disconnect\<close> is called on
  the connection after \<open>Connect\<close>, whose frame is on the wire already: its worker reads the
  response to the connect and takes the stop signal. With nothing more to read, or with
  no worker, \<open>Disconnect\<close> does not return and writes nothing.
\<close>

theorem every_send_through_pipeline_witness:
  "map (map Ext) (wire_after (Handshake (receiving [Payload [handshake_ok]] fresh))) = [[[''out'']]] \<and>
   map (map Ext) (wire_after (Connect fresh)) = [[[''out'']]] \<and>
   map (map Ext) (wire_after (Disconnect by_payload (receiving [Payload [connect_ack]] connected)))
     = [[[''out'']], [[''out'']]] \<and>
   Disconnect by_payload connected = Blocks \<and>
   Disconnect by_payload (fresh\<lparr>workers := 1\<rparr>) = Blocks \<and>
   map (map Ext) (wire_after (Subscribe_register ''/test'' fresh)) = [[[''out'']]] \<and>
   map (map Ext) (wire_after (Unsubscribe ''/test'' fresh)) = [[[''out'']]] \<and>
   map (map Ext) (wire_after (Publish ''/test'' (Some ''hello world'') fresh)) = [[[''out'']]]"
proof -
  let ?h = "receiving [Payload [handshake_ok]] fresh"
  let ?k = "conn0\<lparr>written :=
     [[fst (out_pass fresh ((control_frame MetaConnect fresh)\<lparr>ConnectionType := transportName\<rparr>))]]\<rparr>"
  let ?d = "receiving [Payload [connect_ack]] connected"
  have ch: "conn ?h = Some (conn0\<lparr>incoming := [Payload [handshake_ok]]\<rparr>)"
    by (simp add: receiving_fresh)
  have cd: "conn ?d = Some (?k\<lparr>incoming := [Payload [connect_ack]]\<rparr>)"
    by (simp add: receiving_fields connected_fields)
  have o [simp]: "TransportOpts ?h = opts0" "TransportOpts ?d = opts0" "TransportOpts fresh = opts0"
    by (simp_all add: receiving_fields fresh_fields connected_fields)
  have b [simp]: "broken conn0 = None" "written conn0 = []"
    by (simp_all add: conn0_def)
  obtain e w' where "Handshake ?h = Return (e, w')"
    using Handshake_payload [OF ch, of "[handshake_ok]" "[]"]
    by (auto split: prod.splits if_splits)
  with every_send_through_pipeline [OF ch, where T = by_payload]
  have 1: "map (map Ext) (wire_after (Handshake ?h)) = [[[''out'']]]"
    by (simp add: wire_after_def out_pass_opts0)
  from every_send_through_pipeline [OF conn_fresh, where T = by_payload and s = "''/test''"
      and d = "Some ''hello world''"]
  have 2: "map (map Ext) (wire_after (Connect fresh)) = [[[''out'']]]"
    and 4: "map (map Ext) (wire_after (Subscribe_register ''/test'' fresh)) = [[[''out'']]]"
    and 5: "map (map Ext) (wire_after (Unsubscribe ''/test'' fresh)) = [[[''out'']]]"
    and 6: "map (map Ext) (wire_after (Publish ''/test'' (Some ''hello world'') fresh)) = [[[''out'']]]"
    by (auto simp: wire_after_def sent_once_def out_pass_opts0)
  have a: "await_stop by_payload (?d\<lparr>msgID := msgID ?d + 1\<rparr>)
     = Return ((?d\<lparr>msgID := msgID ?d + 1, conn := Some (?k\<lparr>incoming := []\<rparr>)\<rparr>)\<lparr>workers := 0\<rparr>)"
    using await_stop_payload [where w = "?d\<lparr>msgID := msgID ?d + 1\<rparr>"
        and c = "?k\<lparr>incoming := [Payload [connect_ack]]\<rparr>" and p = "[connect_ack]"
        and later = "[]" and T = by_payload]
    by (simp add: receiving_fields connected_fields dispatch_Cons connect_ack_class advised_def)
  have nd: "\<not> stopCh_closed ?d"
    by (simp add: receiving_fields connected_fields)
  obtain e' w'' where r: "Disconnect by_payload ?d = Return (e', w'')"
    using Disconnect_live [OF nd a] by auto
  from every_send_through_pipeline [OF cd, where T = by_payload, THEN conjunct2,
      THEN conjunct2, THEN conjunct1, rule_format, OF r]
  obtain v where v: "TransportOpts v = TransportOpts ?d"
    "wire w'' = written (?k\<lparr>incoming := [Payload [connect_ack]]\<rparr>) @
       (if broken (?k\<lparr>incoming := [Payload [connect_ack]]\<rparr>) = None
        then [[fst (out_pass v (control_frame MetaDisconnect ?d))]] else [])"
    by blast
  from v(1) have "TransportOpts v = opts0"
    by simp
  from out_pass_opts0 [OF this] v(2) r
  have 3: "map (map Ext) (wire_after (Disconnect by_payload ?d)) = [[[''out'']], [[''out'']]]"
    by (simp add: wire_after_def out_pass_opts0)
  have 7: "Disconnect by_payload connected = Blocks"
    by (simp add: Disconnect_def nextMsgID_def connected_fields
        await_stop_blocks(2) [where c = ?k] conn0_def)
  have 8: "Disconnect by_payload (fresh\<lparr>workers := 1\<rparr>) = Blocks"
    by (simp add: Disconnect_def nextMsgID_def fresh_fields
        await_stop_blocks(2) [where c = conn0] conn_fresh conn0_def)
  from 1 2 3 4 5 6 7 8 show ?thesis by simp
qed

section \<open>Message ids\<close>

lemma digit_val_char: "d < 10 \<Longrightarrow> digit_val (digit_char d) = d"
proof -
  assume "d < 10"
  then have "d \<in> {0, 1, 2, 3, 4, 5, 6, 7, 8, 9}" by auto
  then show ?thesis by (auto simp: digit_val_def digit_char_def)
qed

lemma digit_char_not_minus: "d < 10 \<Longrightarrow> digit_char d \<noteq> CHR ''-''"
proof -
  assume "d < 10"
  then have "d \<in> {0, 1, 2, 3, 4, 5, 6, 7, 8, 9}" by auto
  then show ?thesis by (auto simp: digit_char_def)
qed

lemma atou_utoa: "atou (utoa n) = n"
proof (induction n rule: utoa.induct)
  case (1 n)
  show ?case
  proof (cases "n < 10")
    case True
    then show ?thesis by (subst utoa.simps) (simp add: atou_def digit_val_char)
  next
    case False
    with 1 have ih: "atou (utoa (n div 10)) = n div 10" by simp
    have "atou (utoa n) = 10 * atou (utoa (n div 10)) + digit_val (digit_char (n mod 10))"
      using False by (subst utoa.simps) (simp add: atou_def)
    then show ?thesis using ih by (simp add: digit_val_char)
  qed
qed

lemma utoa_head: "\<exists>c r. utoa n = c # r \<and> c \<noteq> CHR ''-''"
proof (induction n rule: utoa.induct)
  case (1 n)
  show ?case
  proof (cases "n < 10")
    case True
    then show ?thesis by (subst utoa.simps) (simp add: digit_char_not_minus)
  next
    case False
    with 1 obtain c r where "utoa (n div 10) = c # r" "c \<noteq> CHR ''-''" by blast
    then show ?thesis using False by (subst utoa.simps) simp
  qed
qed

lemma Atoi_Itoa: "Atoi (Itoa i) = i"
proof (cases "i < 0")
  case True
  then show ?thesis by (simp add: Atoi_def Itoa_def atou_utoa)
next
  case False
  obtain c r where "utoa (nat i) = c # r" "c \<noteq> CHR ''-''"
    using utoa_head by blast
  with False atou_utoa [of "nat i"] show ?thesis
    by (simp add: Atoi_def Itoa_def)
qed

lemma unat_next:
  assumes "unat x + 1 < 2 ^ 63"
  shows "unat (x + 1 :: 64 word) = unat x + 1"
proof -
  have "unat x + unat (1 :: 64 word) < 2 ^ LENGTH(64)"
    using assms by simp
  then have "unat (x + 1) = unat x + unat (1 :: 64 word)"
    by (simp only: unat_add_lem)
  then show ?thesis by simp
qed

lemma sint_small:
  assumes "unat (y :: 64 word) < 2 ^ 63"
  shows "sint y = int (unat y)"
proof -
  have "int (unat y) < int (2 ^ 63)"
    using assms by (simp only: of_nat_less_iff)
  then have u: "uint y < 2 ^ 63"
    by simp
  have "- (2 ^ 63) \<le> (0::int)" by simp
  moreover have "(0::int) \<le> uint y" by simp
  ultimately have l: "- (2 ^ 63) \<le> uint y"
    by (rule order_trans)
  have "signed_take_bit (63::nat) (uint y) = uint y"
    using l u by (rule signed_take_bit_int_eq_self)
  moreover have "LENGTH(64) - Suc 0 = 63" by simp
  ultimately have "sint y = uint y"
    by (simp only: sint_uint)
  then show ?thesis by simp
qed

lemma sint_next:
  assumes "unat x + 1 < 2 ^ 63"
  shows "sint (x + 1 :: 64 word) = int (unat x + 1)"
proof -
  have "unat (x + 1) < 2 ^ 63"
    using assms by (simp only: unat_next [OF assms])
  then have "sint (x + 1) = int (unat (x + 1))"
    by (rule sint_small)
  then show ?thesis by (simp only: unat_next [OF assms])
qed

lemma sendMessage_msgID:
  "sendMessage m w = Return (e, w') \<Longrightarrow> msgID w' = msgID w"
  by (cases "conn w") (auto simp: sendMessage_nil sendMessage_conn)

text \<open>What one call contributes to the results, and where it leaves the counter.\<close>

lemma publish_results_step:
  fixes w :: "('d, 'u) Websocket"
  shows "publish_results T (a # cs) w = [] \<or>
   (\<exists>w' :: ('d, 'u) Websocket. publish_results T (a # cs) w = publish_results T cs w' \<and>
      msgID w' \<in> {msgID w, msgID w + 1}) \<or>
   (\<exists>(w' :: ('d, 'u) Websocket) r.
      publish_results T (a # cs) w = r # publish_results T cs w' \<and> msgID w' = msgID w + 1 \<and>
      (snd r = None \<longrightarrow> fst r = Itoa (sint (msgID w + 1))))"
proof (cases a)
  case CallHandshake
  show ?thesis
  proof (cases "Handshake w")
    case (Return x)
    obtain e w' where x: "x = (e, w')" by (cases x)
    have "msgID w' = msgID w"
      using Return x
      by (auto simp: Handshake_def applyInExtensions_def
          split: outcome.splits prod.splits option.splits read_result.splits list.splits
            if_splits
          dest!: sendMessage_msgID)
    moreover from Return x CallHandshake have "publish_results T (a # cs) w = publish_results T cs w'" by simp
    ultimately have "\<exists>w' :: ('d, 'u) Websocket. publish_results T (a # cs) w = publish_results T cs w' \<and>
      msgID w' \<in> {msgID w, msgID w + 1}"
      by (intro exI [of _ w']) simp
    then show ?thesis by simp
  qed (simp_all add: CallHandshake)
next
  case CallConnect
  show ?thesis
  proof (cases "Connect w")
    case (Return x)
    obtain e w' where x: "x = (e, w')" by (cases x)
    have "msgID w' = msgID w + 1"
      using Return x by (auto simp: Connect_def nextMsgID_def dest!: sendMessage_msgID)
    moreover from Return x CallConnect have "publish_results T (a # cs) w = publish_results T cs w'" by simp
    ultimately have "\<exists>w' :: ('d, 'u) Websocket. publish_results T (a # cs) w = publish_results T cs w' \<and>
      msgID w' \<in> {msgID w, msgID w + 1}"
      by (intro exI [of _ w']) simp
    then show ?thesis by simp
  qed (simp_all add: CallConnect)
next
  case CallDisconnect
  show ?thesis
  proof (cases "Disconnect T w")
    case (Return x)
    obtain e w' where x: "x = (e, w')" by (cases x)
    have "msgID w' = msgID w + 1"
      using Return x
      by (auto simp: Disconnect_def nextMsgID_def split: if_splits outcome.splits
          dest!: sendMessage_msgID await_stop_keeps)
    moreover from Return x CallDisconnect have "publish_results T (a # cs) w = publish_results T cs w'" by simp
    ultimately have "\<exists>w' :: ('d, 'u) Websocket. publish_results T (a # cs) w = publish_results T cs w' \<and>
      msgID w' \<in> {msgID w, msgID w + 1}"
      by (intro exI [of _ w']) simp
    then show ?thesis by simp
  qed (simp_all add: CallDisconnect)
next
  case (CallSubscribe s)
  show ?thesis
  proof (cases "Subscribe_register s w")
    case (Return x)
    obtain e w' where x: "x = (e, w')" by (cases x)
    have "msgID w' = msgID w + 1"
      using Return x
      by (auto simp: Subscribe_register_def nextMsgID_def Let_def
          split: outcome.splits prod.splits option.splits dest!: sendMessage_msgID)
    moreover from Return x CallSubscribe have "publish_results T (a # cs) w = publish_results T cs w'" by simp
    ultimately have "\<exists>w' :: ('d, 'u) Websocket. publish_results T (a # cs) w = publish_results T cs w' \<and>
      msgID w' \<in> {msgID w, msgID w + 1}"
      by (intro exI [of _ w']) simp
    then show ?thesis by simp
  qed (simp_all add: CallSubscribe)
next
  case (CallUnsubscribe s)
  show ?thesis
  proof (cases "Unsubscribe s w")
    case (Return x)
    obtain e w' where x: "x = (e, w')" by (cases x)
    have "msgID w' = msgID w + 1"
      using Return x by (auto simp: Unsubscribe_def nextMsgID_def dest!: sendMessage_msgID)
    moreover from Return x CallUnsubscribe have "publish_results T (a # cs) w = publish_results T cs w'" by simp
    ultimately have "\<exists>w' :: ('d, 'u) Websocket. publish_results T (a # cs) w = publish_results T cs w' \<and>
      msgID w' \<in> {msgID w, msgID w + 1}"
      by (intro exI [of _ w']) simp
    then show ?thesis by simp
  qed (simp_all add: CallUnsubscribe)
next
  case (CallPublish s d)
  show ?thesis
  proof (cases "Publish s d w")
    case (Return x)
    obtain r w' where x: "x = (r, w')" by (cases x)
    have "msgID w' = msgID w + 1 \<and> (snd r = None \<longrightarrow> fst r = Itoa (sint (msgID w + 1)))"
      using Return x
      by (auto simp: Publish_def nextMsgID_def
          split: outcome.splits prod.splits option.splits dest!: sendMessage_msgID)
    moreover from Return x CallPublish have "publish_results T (a # cs) w = r # publish_results T cs w'" by simp
    ultimately have "\<exists>(w' :: ('d, 'u) Websocket) r. publish_results T (a # cs) w = r # publish_results T cs w' \<and>
      msgID w' = msgID w + 1 \<and> (snd r = None \<longrightarrow> fst r = Itoa (sint (msgID w + 1)))"
      by (intro exI [of _ w'] exI [of _ r]) simp
    then show ?thesis by simp
  qed (simp_all add: CallPublish)
qed

lemma returned_ids_simps [simp]:
  "returned_ids [] = []"
  "returned_ids (r # rs) = (if snd r = None then fst r # returned_ids rs else returned_ids rs)"
  by (simp_all add: returned_ids_def)

lemma ids_ok:
  fixes w :: "('d, 'u) Websocket"
  assumes "unat (msgID w) + length cs < 2 ^ 63"
  shows "sorted_wrt (<) (map Atoi (returned_ids (publish_results T cs w))) \<and>
     (\<forall>i\<in>set (returned_ids (publish_results T cs w)).
        int (unat (msgID w)) < Atoi i \<and> Atoi i \<le> int (unat (msgID w) + length cs))"
  using assms
proof (induction cs arbitrary: w)
  case Nil
  show ?case by simp
next
  case (Cons a cs)
  let ?k = "unat (msgID w)"
  have k1: "?k + 1 < 2 ^ 63"
    using Cons.prems by simp
  have n: "unat (msgID w + 1) = ?k + 1"
    by (rule unat_next [OF k1])
  from publish_results_step [where T = T and a = a and cs = cs and w = w] show ?case
  proof (elim disjE exE conjE)
    assume "publish_results T (a # cs) w = []"
    then show ?thesis by simp
  next
    fix w' :: "('d, 'u) Websocket"
    assume skip: "publish_results T (a # cs) w = publish_results T cs w'"
      "msgID w' \<in> {msgID w, msgID w + 1}"
    let ?ids = "returned_ids (publish_results T cs w')"
    from skip(2) n have b: "?k \<le> unat (msgID w')" "unat (msgID w') \<le> ?k + 1"
      by auto
    with Cons.prems have "unat (msgID w') + length cs < 2 ^ 63"
      by simp
    from Cons.IH [OF this]
    have ih: "sorted_wrt (<) (map Atoi ?ids)"
      "\<And>i. i \<in> set ?ids \<Longrightarrow> int (unat (msgID w')) < Atoi i"
      "\<And>i. i \<in> set ?ids \<Longrightarrow> Atoi i \<le> int (unat (msgID w') + length cs)"
      by simp_all
    have "int ?k < Atoi i \<and> Atoi i \<le> int (?k + length (a # cs))" if "i \<in> set ?ids" for i
      using ih(2) [OF that] ih(3) [OF that] b by (simp del: of_nat_unat)
    with ih(1) show ?thesis
      unfolding skip(1) by blast
  next
    fix w' :: "('d, 'u) Websocket" and r
    assume pub: "publish_results T (a # cs) w = r # publish_results T cs w'"
      "msgID w' = msgID w + 1"
      "snd r = None \<longrightarrow> fst r = Itoa (sint (msgID w + 1))"
    let ?ids = "returned_ids (publish_results T cs w')"
    from pub(2) n have m: "unat (msgID w') = ?k + 1"
      by simp
    with Cons.prems have "unat (msgID w') + length cs < 2 ^ 63"
      by simp
    from Cons.IH [OF this]
    have ih: "sorted_wrt (<) (map Atoi ?ids)"
      "\<And>i. i \<in> set ?ids \<Longrightarrow> int (unat (msgID w')) < Atoi i"
      "\<And>i. i \<in> set ?ids \<Longrightarrow> Atoi i \<le> int (unat (msgID w') + length cs)"
      by simp_all
    have rest: "int ?k + 1 < Atoi i \<and> Atoi i \<le> int (?k + length (a # cs))"
      if "i \<in> set ?ids" for i
      using ih(2) [OF that] ih(3) [OF that] m by (simp del: of_nat_unat)
    show ?thesis
    proof (cases "snd r = None")
      case False
      have "int ?k < Atoi i \<and> Atoi i \<le> int (?k + length (a # cs))" if "i \<in> set ?ids" for i
        using rest [OF that] by (simp del: of_nat_unat)
      with ih(1) False show ?thesis
        unfolding pub(1) by auto
    next
      case True
      with pub(3) have "Atoi (fst r) = int (?k + 1)"
        by (simp only: sint_next [OF k1] Atoi_Itoa)
      then have hd: "Atoi (fst r) = int ?k + 1"
        by (simp del: of_nat_unat)
      have "sorted_wrt (<) (map Atoi (fst r # ?ids))"
        using ih(1) rest hd by (simp del: of_nat_unat)
      moreover have "int ?k < Atoi i \<and> Atoi i \<le> int (?k + length (a # cs))"
        if "i \<in> set (fst r # ?ids)" for i
      proof (cases "i = fst r")
        case True
        with hd show ?thesis by (simp del: of_nat_unat)
      next
        case False
        with that have "i \<in> set ?ids" by simp
        from rest [OF this] show ?thesis by (simp del: of_nat_unat)
      qed
      ultimately show ?thesis
        unfolding pub(1) using True by simp
    qed
  qed
qed

lemma live_fresh: "live fresh"
  by (simp add: live_def conn_fresh conn0_def)

lemma sendMessage_live:
  fixes w :: "('d, 'u) Websocket"
  assumes "live w"
  shows "\<exists>w' :: ('d, 'u) Websocket. sendMessage m w = Return (None, w') \<and> live w' \<and>
     msgID w' = msgID w"
proof -
  from assms obtain c where c: "conn w = Some c" "broken c = None"
    by (auto simp: live_def split: option.splits)
  show ?thesis
    by (intro exI [of _ "w\<lparr>world := snd (out_pass w m),
          conn := Some (c\<lparr>written := written c @ [[fst (out_pass w m)]]\<rparr>)\<rparr>"])
      (simp add: sendMessage_conn [OF c(1)] c(2) live_def)
qed

lemma live_Publish:
  fixes w :: "('d, 'u) Websocket"
  assumes "live w"
  shows "\<exists>w' :: ('d, 'u) Websocket. live w' \<and> msgID w' = msgID w + 1 \<and>
     publish_results T (CallPublish s d # cs) w
       = (Itoa (sint (msgID w + 1)), None) # publish_results T cs w'"
proof -
  from assms have "live (w\<lparr>msgID := msgID w + 1\<rparr>)"
    by (simp add: live_def)
  from sendMessage_live [OF this]
  obtain w' :: "('d, 'u) Websocket" where
    "sendMessage (Message_zero\<lparr>Channel := s, Data := d, ClientId := clientID w,
        Id' := Itoa (sint (msgID w + 1))\<rparr>) (w\<lparr>msgID := msgID w + 1\<rparr>) = Return (None, w')"
    "live w'" "msgID w' = msgID (w\<lparr>msgID := msgID w + 1\<rparr>)"
    by blast
  then show ?thesis
    by (intro exI [of _ w']) (simp add: Publish_def nextMsgID_def)
qed

lemma live_Connect:
  fixes w :: "('d, 'u) Websocket"
  assumes "live w"
  shows "\<exists>w' :: ('d, 'u) Websocket. live w' \<and> msgID w' = msgID w + 1 \<and>
     publish_results T (CallConnect # cs) w = publish_results T cs w'"
proof -
  from assms have "live (w\<lparr>msgID := msgID w + 1, workers := Suc (workers w)\<rparr>)"
    by (simp add: live_def)
  from sendMessage_live [OF this]
  obtain w' :: "('d, 'u) Websocket" where
    "sendMessage (Message_zero\<lparr>Channel := MetaConnect, ClientId := clientID w,
        ConnectionType := transportName, Id' := Itoa (sint (msgID w + 1))\<rparr>)
       (w\<lparr>msgID := msgID w + 1, workers := Suc (workers w)\<rparr>) = Return (None, w')"
    "live w'" "msgID w' = msgID (w\<lparr>msgID := msgID w + 1, workers := Suc (workers w)\<rparr>)"
    by blast
  then show ?thesis
    by (intro exI [of _ w']) (simp add: Connect_def nextMsgID_def)
qed

lemma live_Unsubscribe:
  fixes w :: "('d, 'u) Websocket"
  assumes "live w"
  shows "\<exists>w' :: ('d, 'u) Websocket. live w' \<and> msgID w' = msgID w + 1 \<and>
     publish_results T (CallUnsubscribe s # cs) w = publish_results T cs w'"
proof -
  from assms have "live (w\<lparr>msgID := msgID w + 1\<rparr>)"
    by (simp add: live_def)
  from sendMessage_live [OF this]
  obtain w' :: "('d, 'u) Websocket" where
    "sendMessage (Message_zero\<lparr>Channel := MetaUnsubscribe, Subscription := s,
        ClientId := clientID w, Id' := Itoa (sint (msgID w + 1))\<rparr>)
       (w\<lparr>msgID := msgID w + 1\<rparr>) = Return (None, w')"
    "live w'" "msgID w' = msgID (w\<lparr>msgID := msgID w + 1\<rparr>)"
    by blast
  then show ?thesis
    by (intro exI [of _ w']) (simp add: Unsubscribe_def nextMsgID_def)
qed

lemma live_Unsubscribes:
  fixes w :: "('d, 'u) Websocket"
  assumes "live w"
  shows "\<exists>w' :: ('d, 'u) Websocket. live w' \<and> msgID w' = msgID w + of_nat n \<and>
     publish_results T (replicate n (CallUnsubscribe s) @ cs) w = publish_results T cs w'"
  using assms
proof (induction n arbitrary: w)
  case 0
  then show ?case by auto
next
  case (Suc n)
  from live_Unsubscribe [OF Suc.prems, where T = T and s = s
      and cs = "replicate n (CallUnsubscribe s) @ cs"]
  obtain w1 :: "('d, 'u) Websocket" where w1: "live w1" "msgID w1 = msgID w + 1"
    "publish_results T (CallUnsubscribe s # replicate n (CallUnsubscribe s) @ cs) w
       = publish_results T (replicate n (CallUnsubscribe s) @ cs) w1"
    by blast
  from Suc.IH [OF w1(1)]
  obtain w' :: "('d, 'u) Websocket" where w': "live w'" "msgID w' = msgID w1 + of_nat n"
    "publish_results T (replicate n (CallUnsubscribe s) @ cs) w1 = publish_results T cs w'"
    by blast
  have "msgID w' = msgID w + of_nat (Suc n)"
    using w1(2) w'(2) by simp
  with w'(1) w'(3) w1(3) show ?case
    by (intro exI [of _ w']) simp
qed

lemma two_publishes:
  fixes w :: "('d, 'u) Websocket"
  assumes "live w"
  shows "returned_ids (publish_results T [CallPublish s d, CallPublish s d] w)
     = [Itoa (sint (msgID w + 1)), Itoa (sint (msgID w + 1 + 1))]"
proof -
  from live_Publish [OF assms, where T = T and s = s and d = d and cs = "[CallPublish s d]"]
  obtain w1 :: "('d, 'u) Websocket" where w1: "live w1" "msgID w1 = msgID w + 1"
    "publish_results T [CallPublish s d, CallPublish s d] w
       = (Itoa (sint (msgID w + 1)), None) # publish_results T [CallPublish s d] w1"
    by blast
  from live_Publish [OF w1(1), where T = T and s = s and d = d and cs = "[]"]
  obtain w2 :: "('d, 'u) Websocket" where
    "publish_results T [CallPublish s d] w1 = (Itoa (sint (msgID w1 + 1)), None) # publish_results T [] w2"
    by blast
  with w1 show ?thesis by simp
qed

text \<open>
  C6. A caller makes calls on one connection, one after the other, and fewer than
  \<open>2 ^ 63\<close> ids have been allocated on the connection when the last call is made. Then
  the ids that its \<open>Publish\<close> calls return are numerically strictly increasing and pairwise
  distinct, whatever other calls (Handshake, Connect, Disconnect, Subscribe, Unsubscribe)
  come between them. Each id is a value of the one counter of the connection, above the
  value the counter had before the calls.
\<close>

theorem publish_ids_increase:
  fixes w :: "('d, 'u) Websocket"
  assumes "unat (msgID w) + length cs < 2 ^ 63"
  shows "sorted_wrt (<) (map Atoi (returned_ids (publish_results T cs w))) \<and>
     distinct (returned_ids (publish_results T cs w)) \<and>
     (\<forall>i\<in>set (returned_ids (publish_results T cs w)).
        int (unat (msgID w)) < Atoi i \<and> Atoi i \<le> int (unat (msgID w) + length cs))"
proof -
  note ok = ids_ok [OF assms]
  then have "distinct (map Atoi (returned_ids (publish_results T cs w)))"
    by (simp only: strict_sorted_iff)
  then have "distinct (returned_ids (publish_results T cs w))"
    by (simp only: distinct_map)
  with ok show ?thesis by simp
qed

theorem publish_ids_increase_witness:
  "unat (msgID fresh) + length [hello, CallConnect, hello] < 2 ^ 63 \<and>
   sorted_wrt (<) (map Atoi (returned_ids (publish_results by_payload [hello, CallConnect, hello] fresh))) \<and>
   distinct (returned_ids (publish_results by_payload [hello, CallConnect, hello] fresh))"
proof -
  have "unat (msgID fresh) + length [hello, CallConnect, hello] < 2 ^ 63"
    by (simp add: fresh_fields)
  from this publish_ids_increase [OF this, where T = by_payload] show ?thesis by simp
qed

text \<open>
  C6, as stated, fails: without the bound the ids do not keep growing. The counter is a \<open>uint64\<close> and \<open>nextMsgID\<close> converts
  its value to \<open>int\<close> (64 bits here): on a fresh connection, after \<open>2 ^ 63 - 2\<close> calls that
  each allocate an id, two \<open>Publish\<close> calls return \<open>9223372036854775807\<close> and then
  \<open>-9223372036854775808\<close>.
\<close>

theorem publish_ids_wrap_counterexample:
  "returned_ids (publish_results by_payload
      (replicate (2 ^ 63 - 2) (CallUnsubscribe ''/test'') @ [hello, hello]) fresh)
     = [''9223372036854775807'', ''-9223372036854775808''] \<and>
   \<not> sorted_wrt (<) (map Atoi (returned_ids (publish_results by_payload
      (replicate (2 ^ 63 - 2) (CallUnsubscribe ''/test'') @ [hello, hello]) fresh)))"
proof -
  from live_Unsubscribes [OF live_fresh, where n = "2 ^ 63 - 2" and T = by_payload
      and s = "''/test''" and cs = "[hello, hello]"]
  obtain w' :: "(string, nat) Websocket" where w': "live w'"
    "msgID w' = msgID fresh + of_nat (2 ^ 63 - 2)"
    "publish_results by_payload (replicate (2 ^ 63 - 2) (CallUnsubscribe ''/test'') @ [hello, hello]) fresh
       = publish_results by_payload [hello, hello] w'"
    by blast
  have m: "msgID w' = 9223372036854775806"
    using w'(2) by (simp add: fresh_fields)
  have "returned_ids (publish_results by_payload [hello, hello] w')
     = [Itoa (sint (msgID w' + 1)), Itoa (sint (msgID w' + 1 + 1))]"
    unfolding hello_def by (rule two_publishes [OF w'(1), where T = by_payload])
  also have "\<dots> = [''9223372036854775807'', ''-9223372036854775808'']"
    by (simp add: m Itoa_def utoa.simps digit_char_def)
  finally have ids: "returned_ids (publish_results by_payload [hello, hello] w')
     = [''9223372036854775807'', ''-9223372036854775808'']" .
  have "Atoi ''9223372036854775807'' = 9223372036854775807"
    "Atoi ''-9223372036854775808'' = - 9223372036854775808"
    by (simp_all add: Atoi_def atou_def digit_val_def)
  with ids w'(3) show ?thesis by simp
qed

end
